theory Spec2Isabelle
  imports Main "HOL-Library.Sublist"
begin

section \<open>Python strings and POSIX paths\<close>

text \<open>
  A Python \<open>str\<close> is modelled as a \<open>string\<close>: a list of code points below 256.
  The functions of this section are the library calls the source makes on strings
  (\<open>str.lower\<close>, \<open>str.split\<close>, \<open>str.replace\<close>, \<open>str(int)\<close>, \<open>os.path.join\<close>,
  \<open>os.path.dirname\<close>, \<open>file.readlines\<close>), on a POSIX system.
\<close>

definition LF :: char where
  "LF = CHR 0x0A"

definition CR :: char where
  "CR = CHR 0x0D"

definition lower_char :: "char \<Rightarrow> char" where
  \<comment> \<open>\<open>str.lower\<close> on one code point below 256: A-Z and the Latin-1 capitals
      (0xC0-0xDE without the multiplication sign 0xD7) move up by 32.\<close>
  "lower_char c =
     (let n = (of_char c :: nat)
      in if (65 \<le> n \<and> n \<le> 90) \<or> (192 \<le> n \<and> n \<le> 222 \<and> n \<noteq> 215)
         then char_of (n + 32) else c)"

definition py_lower :: "string \<Rightarrow> string" where
  "py_lower s = map lower_char s"

fun py_split :: "char \<Rightarrow> string \<Rightarrow> string list" where
  \<comment> \<open>\<open>s.split(sep)\<close> for a separator of one character: never the empty list.\<close>
  "py_split sep [] = [[]]"
| "py_split sep (c # cs) =
     (if c = sep then [] # py_split sep cs
      else (case py_split sep cs of
              [] \<Rightarrow> [[c]]
            | w # ws \<Rightarrow> (c # w) # ws))"

function py_replace :: "string \<Rightarrow> string \<Rightarrow> string \<Rightarrow> string" where
  \<comment> \<open>\<open>s.replace(old, new)\<close>: every occurrence of \<open>old\<close>, found left to right
      without overlap, becomes \<open>new\<close>.\<close>
  "py_replace old new s =
     (if old = [] then new @ concat (map (\<lambda>c. c # new) s)
      else if s = [] then []
      else if take (length old) s = old
           then new @ py_replace old new (drop (length old) s)
           else hd s # py_replace old new (tl s))"
  by pat_completeness auto
termination
  by (relation "measure (\<lambda>(old, new, s). length s)") auto

declare py_replace.simps [simp del]

definition digit_char :: "nat \<Rightarrow> char" where
  "digit_char d = char_of (48 + d)"

fun py_str_nat :: "nat \<Rightarrow> string" where
  \<comment> \<open>\<open>str(n)\<close>, as the f-string \<open>f"{ind}/..."\<close> formats a non-negative index.\<close>
  "py_str_nat n =
     (if n < 10 then [digit_char n] else py_str_nat (n div 10) @ [digit_char (n mod 10)])"

declare py_str_nat.simps [simp del]

definition os_path_join :: "string \<Rightarrow> string \<Rightarrow> string" where
  \<comment> \<open>\<open>posixpath.join(a, b)\<close>.\<close>
  "os_path_join a b =
     (if b \<noteq> [] \<and> hd b = CHR ''/'' then b
      else if a = [] \<or> last a = CHR ''/'' then a @ b
      else a @ CHR ''/'' # b)"

definition os_path_dirname :: "string \<Rightarrow> string" where
  \<comment> \<open>\<open>posixpath.dirname(p)\<close>: everything up to the last slash, with the trailing
      slashes removed unless the head consists of slashes only.\<close>
  "os_path_dirname p =
     (let head = rev (dropWhile (\<lambda>c. c \<noteq> CHR ''/'') (rev p))
      in if head \<noteq> [] \<and> head \<noteq> replicate (length head) (CHR ''/'')
         then rev (dropWhile (\<lambda>c. c = CHR ''/'') (rev head))
         else head)"

fun universal_newlines :: "string \<Rightarrow> string" where
  \<comment> \<open>Text mode with the default \<open>newline=None\<close>: on reading, \<open>\r\n\<close> and a lone
      \<open>\r\<close> arrive as \<open>\n\<close>.\<close>
  "universal_newlines [] = []"
| "universal_newlines [c] = [if c = CR then LF else c]"
| "universal_newlines (c # d # ds) =
     (if c = CR \<and> d = LF then LF # universal_newlines ds
      else if c = CR then LF # universal_newlines (d # ds)
      else c # universal_newlines (d # ds))"

fun keepends :: "string \<Rightarrow> string list" where
  \<comment> \<open>The lines of a text, each with its terminating \<open>\n\<close> when it has one.\<close>
  "keepends [] = []"
| "keepends (c # cs) =
     (if c = LF then [c] # keepends cs
      else (case keepends cs of
              [] \<Rightarrow> [[c]]
            | l # ls \<Rightarrow> (c # l) # ls))"

definition readlines :: "string \<Rightarrow> string list" where
  \<comment> \<open>\<open>f.readlines()\<close> on a file opened with \<open>open(path, 'r')\<close> whose stored
      content is the argument. The terminators stay on the lines.\<close>
  "readlines content = keepends (universal_newlines content)"


section \<open>Download and extraction state\<close>

text \<open>
  The file system is a map from paths to file contents; \<open>os.path.exists\<close> is
  definedness. The files below the extraction directory (images, snapshots) are not
  part of this map: an extraction shows as an effect. The network and the behaviour
  of \<open>tarfile\<close> on an archive are the world the functions run in. Every call returns
  the exception it raised (if any), the effects it performed in order, and the file
  system it left behind. Failures of the local disk itself (\<open>os.remove\<close>,
  \<open>os.makedirs\<close>, opening the manifest) and the progress bar are outside the model.
\<close>

type_synonym files = "string \<rightharpoonup> string"

datatype read = Buffer string | ReadRaises

record world =
  urlopen :: "string \<Rightarrow> read list option"
    \<comment> \<open>\<open>None\<close>: \<open>urllib.request.urlopen(url)\<close> raises; otherwise the results of the
        successive \<open>response.read(block_size)\<close> calls.\<close>
  untar :: "string \<Rightarrow> bool"
    \<comment> \<open>whether \<open>tarfile.open(..., "r:gz")\<close> and \<open>extractall\<close> succeed on an archive
        with this content.\<close>

datatype error =
    KeyError string
  | AssertionError
  | URLError
  | ReadFailed
  | FileNotFoundError string
  | ExtractError
  | ValueError string
  | IndexError
  | AttributeError

datatype effect =
    Fetch string string      \<comment> \<open>url, destination file written\<close>
  | Unpack string string     \<comment> \<open>archive opened, directory it is extracted into\<close>
  | Remove string            \<comment> \<open>file deleted\<close>
  | Append string string     \<comment> \<open>file appended to, text appended\<close>

type_synonym run = "error option \<times> effect list \<times> files"

definition url_dict :: "(string \<times> string) list" where
  "url_dict =
     [(''entire_dataset'', ''https://www.dropbox.com/s/wc9mwza5yk66i83/spawrious224.tar.gz?dl=1''),
      (''o2o_easy'', ''https://www.dropbox.com/s/bonf1elisg2ohiq/spawrious__o2o_easy.tar.gz?dl=1''),
      (''o2o_medium'', ''https://www.dropbox.com/s/xfea065mhh70me1/spawrious__o2o_medium.tar.gz?dl=1''),
      (''o2o_hard'', ''https://www.dropbox.com/s/m5eeqp0nsc31nyt/spawrious__o2o_hard.tar.gz?dl=1''),
      (''m2m'', ''https://www.dropbox.com/s/spwszi0rxbf53f8/spawrious__m2m.tar.gz?dl=1'')]"

definition extract_dataset_from_tar :: "world \<Rightarrow> string \<Rightarrow> string \<Rightarrow> bool \<Rightarrow> files \<Rightarrow> run" where
  "extract_dataset_from_tar w tar_file_name data_dir remove_tar_after_extracting fs =
     (let tar_file_dst = os_path_join data_dir tar_file_name
      in case fs tar_file_dst of
           None \<Rightarrow> (Some (FileNotFoundError tar_file_dst), [], fs)
         | Some archive \<Rightarrow>
             if \<not> untar w archive
             then (Some ExtractError, [Unpack tar_file_dst (os_path_dirname tar_file_dst)], fs)
             else if remove_tar_after_extracting
             then (None, [Unpack tar_file_dst (os_path_dirname tar_file_dst), Remove tar_file_dst],
                   fs(tar_file_dst := None))
             else (None, [Unpack tar_file_dst (os_path_dirname tar_file_dst)], fs))"

fun copy_body :: "read list \<Rightarrow> string \<times> bool" where
  \<comment> \<open>The \<open>while True\<close> loop of the download: what reaches the file, and whether the
      loop ended by an empty buffer (\<open>True\<close>) or by an exception (\<open>False\<close>). A
      response with no further reads is at its end.\<close>
  "copy_body [] = ([], True)"
| "copy_body (ReadRaises # rest) = ([], False)"
| "copy_body (Buffer buffer # rest) =
     (if buffer = [] then ([], True)
      else (case copy_body rest of (body, ok) \<Rightarrow> (buffer @ body, ok)))"

definition already_extracted :: "string \<Rightarrow> string \<Rightarrow> bool" where
  \<comment> \<open>\<open>lines = set(f.readlines())\<close>;
      \<open>(dataset_name in lines) or ('entire_dataset' in lines)\<close>.\<close>
  "already_extracted dataset_name content =
     (let lines = set (readlines content)
      in dataset_name \<in> lines \<or> ''entire_dataset'' \<in> lines)"

definition extract_and_mark :: "world \<Rightarrow> string \<Rightarrow> string \<Rightarrow> bool \<Rightarrow> string \<Rightarrow> files \<Rightarrow> run" where
  \<comment> \<open>The block the source repeats three times: \<open>_extract_dataset_from_tar(...)\<close>,
      then \<open>open(datasets.txt, 'a')\<close> and \<open>f.write('\n' + dataset_name)\<close>.\<close>
  "extract_and_mark w tar_file_name data_dir remove_tar_after_extracting dataset_name fs =
     (case extract_dataset_from_tar w tar_file_name data_dir remove_tar_after_extracting fs of
        (Some e, effs, fs1) \<Rightarrow> (Some e, effs, fs1)
      | (None, effs, fs1) \<Rightarrow>
          (let manifest = os_path_join data_dir ''datasets.txt'';
               old = (case fs1 manifest of None \<Rightarrow> [] | Some content \<Rightarrow> content)
           in (None, effs @ [Append manifest (LF # dataset_name)],
               fs1(manifest \<mapsto> old @ LF # dataset_name))))"

definition normalize_name :: "string \<Rightarrow> string" where
  \<comment> \<open>Lines 34-36 of the source.\<close>
  "normalize_name dataset_name =
     (let dataset_name = py_lower dataset_name
      in if hd (py_split (CHR ''_'') dataset_name) = ''m2m'' then ''m2m'' else dataset_name)"

definition download_dataset_if_not_available ::
  "world \<Rightarrow> string \<Rightarrow> string \<Rightarrow> bool \<Rightarrow> files \<Rightarrow> run" where
  "download_dataset_if_not_available w dataset_name0 data_dir remove_tar_after_extracting fs =
     (let dataset_name = normalize_name dataset_name0;
          tar_file_name = ''spawrious__'' @ dataset_name @ ''.tar.gz'';
          tar_file_dst = os_path_join data_dir tar_file_name
      in case map_of url_dict dataset_name of
           None \<Rightarrow> (Some (KeyError dataset_name), [], fs)
         | Some url \<Rightarrow>
             if fs tar_file_dst \<noteq> None then
               (case fs (os_path_join data_dir ''datasets.txt'') of
                  Some content \<Rightarrow>
                    if already_extracted dataset_name content then (None, [], fs)
                    else extract_and_mark w tar_file_name data_dir remove_tar_after_extracting
                           dataset_name fs
                | None \<Rightarrow>
                    extract_and_mark w tar_file_name data_dir remove_tar_after_extracting
                      dataset_name fs)
             else
               (let download =
                      (case fs (os_path_join data_dir ''datasets.txt'') of
                         Some content \<Rightarrow> \<not> already_extracted dataset_name content
                       | None \<Rightarrow> True)
                in if download then
                     (case urlopen w url of
                        None \<Rightarrow> (Some URLError, [], fs)
                      | Some response \<Rightarrow>
                          (case copy_body response of
                             (body, finished) \<Rightarrow>
                               if \<not> finished
                               then (Some ReadFailed, [Fetch url tar_file_dst],
                                     fs(tar_file_dst \<mapsto> body))
                               else (case extract_and_mark w tar_file_name data_dir
                                            remove_tar_after_extracting dataset_name
                                            (fs(tar_file_dst \<mapsto> body)) of
                                       (e, effs, fs2) \<Rightarrow> (e, Fetch url tar_file_dst # effs, fs2))))
                   else (None, [], fs)))"

definition allowed_names :: "string list" where
  "allowed_names =
     [''o2o_easy'', ''o2o_medium'', ''o2o_hard'', ''m2m_easy'', ''m2m_medium'', ''m2m_hard'',
      ''m2m'', ''entire_dataset'']"

definition download_spawrious_dataset :: "world \<Rightarrow> string \<Rightarrow> string \<Rightarrow> files \<Rightarrow> run" where
  "download_spawrious_dataset w dataset_name root_dir fs =
     (if py_lower dataset_name \<in> set allowed_names
      then download_dataset_if_not_available w dataset_name root_dir True fs
      else (Some AssertionError, [], fs))"

text \<open>The deterministic paths of the manifest and of an archive below a data directory.\<close>

definition manifest_path :: "string \<Rightarrow> string" where
  "manifest_path data_dir = os_path_join data_dir ''datasets.txt''"

definition tar_path :: "string \<Rightarrow> string \<Rightarrow> string" where
  "tar_path data_dir dataset_name =
     os_path_join data_dir (''spawrious__'' @ dataset_name @ ''.tar.gz'')"

definition m2m_url :: string where
  "m2m_url = ''https://www.dropbox.com/s/spwszi0rxbf53f8/spawrious__m2m.tar.gz?dl=1''"

text \<open>
  The manifest check in the words of the specification: the manifest holds one entry per
  line, and a dataset counts as extracted when one of these entries is its name or the
  marker of the entire dataset. An entry is a line without its terminator.
\<close>

definition spec_manifest_entries :: "string \<Rightarrow> string list" where
  "spec_manifest_entries content = py_split LF (universal_newlines content)"

definition spec_is_extracted :: "string \<Rightarrow> string \<Rightarrow> bool" where
  "spec_is_extracted name content =
     (name \<in> set (spec_manifest_entries content)
      \<or> ''entire_dataset'' \<in> set (spec_manifest_entries content))"


section \<open>Image collections\<close>

text \<open>
  An \<open>ImageFolder\<close> object of torchvision is a mutable object: \<open>prepend_path\<close> assigns to
  its \<open>root\<close> and to the entries of its \<open>samples\<close> list. The objects therefore live in a
  store, addressed by their position, and a dataset refers to an image folder by its
  address. \<open>Subset\<close> and \<open>ConcatDataset\<close> objects are never mutated and are values. A
  sample is the pair of a file path and a class index; decoding the image and applying
  the transform are not modelled, only which transform the folder was opened with.
  The directory scan of the \<open>ImageFolder\<close> constructor is the disk: the object the
  constructor builds for a path, or nothing when it raises.
\<close>

datatype transform = Augmenting | Plain

record image_folder =
  root :: string
  class_to_idx :: "(string \<times> nat) list"
  samples :: "(string \<times> nat) list"
  transform :: transform

type_synonym disk = "string \<Rightarrow> image_folder option"

type_synonym store = "image_folder list"

datatype dataset =
    ImageFolder nat
  | Subset dataset "nat list"
  | ConcatDataset "dataset list"

fun items :: "store \<Rightarrow> dataset \<Rightarrow> (string \<times> nat) list" where
  \<comment> \<open>The samples a dataset yields for the indices \<open>0, 1, ...\<close> up to its length,
      as \<open>__getitem__\<close> and \<open>__len__\<close> of the three torch classes define them.\<close>
  "items st (ImageFolder a) = samples (st ! a)"
| "items st (Subset d indices) = map (\<lambda>i. items st d ! i) indices"
| "items st (ConcatDataset ds) = concat (map (items st) ds)"

definition new_image_folder :: "disk \<Rightarrow> string \<Rightarrow> transform \<Rightarrow> store \<Rightarrow> error + nat \<times> store" where
  \<comment> \<open>\<open>ImageFolder(root=path, transform=t)\<close>: a fresh object at the next address.\<close>
  "new_image_folder disk path t st =
     (case disk path of
        None \<Rightarrow> Inl (FileNotFoundError path)
      | Some data \<Rightarrow> Inr (length st, st @ [data\<lparr>transform := t\<rparr>]))"

fun class_indices :: "(string \<times> nat) list \<Rightarrow> string list \<Rightarrow> error + nat list" where
  \<comment> \<open>\<open>[data.class_to_idx[c] for c in classes]\<close>\<close>
  "class_indices c2i [] = Inr []"
| "class_indices c2i (c # cs) =
     (case map_of c2i c of
        None \<Rightarrow> Inl (KeyError c)
      | Some i \<Rightarrow> (case class_indices c2i cs of Inl e \<Rightarrow> Inl e | Inr js \<Rightarrow> Inr (i # js)))"

fun limit_scan :: "(string \<times> nat) list \<Rightarrow> int \<Rightarrow> nat \<Rightarrow> nat list \<Rightarrow> int \<Rightarrow> nat list" where
  \<comment> \<open>The inner loop of lines 186-191 over the remaining indices, with the running
      \<open>count_limit\<close>: the indices it appends to \<open>to_keep_idx\<close>. The test against the
      limit comes after the append, in every iteration.\<close>
  "limit_scan smp limit class_to_limit [] count_limit = []"
| "limit_scan smp limit class_to_limit (i # rest) count_limit =
     (if snd (smp ! i) = class_to_limit
      then (if count_limit + 1 \<ge> limit then [i]
            else i # limit_scan smp limit class_to_limit rest (count_limit + 1))
      else (if count_limit \<ge> limit then []
            else limit_scan smp limit class_to_limit rest count_limit))"

definition train_keep :: "(string \<times> nat) list \<Rightarrow> int \<Rightarrow> nat list \<Rightarrow> nat list" where
  \<comment> \<open>Lines 183-191: one scan per class index of the group, appended in that order.\<close>
  "train_keep smp limit classes_idx =
     concat (map (\<lambda>class_to_limit. limit_scan smp limit class_to_limit [0..<length smp] 0)
               classes_idx)"

definition test_keep :: "(string \<times> nat) list \<Rightarrow> nat list \<Rightarrow> nat list" where
  \<comment> \<open>Lines 228-230.\<close>
  "test_keep smp classes_idx = filter (\<lambda>i. snd (smp ! i) \<in> set classes_idx) [0..<length smp]"

definition placement_path :: "string \<Rightarrow> bool \<Rightarrow> nat \<Rightarrow> string \<Rightarrow> string" where
  \<comment> \<open>\<open>os.path.join(root_dir, f"{0}/{location}/")\<close>, with \<open>ind\<close> for \<open>0\<close> under \<open>type1\<close>.\<close>
  "placement_path root_dir type1 ind location =
     os_path_join root_dir ((if type1 then py_str_nat ind else ''0'') @ ''/'' @ location @ ''/'')"

definition train_subset ::
  "disk \<Rightarrow> string \<Rightarrow> transform \<Rightarrow> bool \<Rightarrow> string list \<Rightarrow> nat \<Rightarrow> string \<times> int \<Rightarrow> store
   \<Rightarrow> error + dataset \<times> store" where
  \<comment> \<open>The body of the loop over \<open>enumerate(comb_list)\<close>, lines 177-195.\<close>
  "train_subset disk root_dir t type1 classes ind placement st =
     (case new_image_folder disk (placement_path root_dir type1 ind (fst placement)) t st of
        Inl e \<Rightarrow> Inl e
      | Inr (data, st1) \<Rightarrow>
          (case class_indices (class_to_idx (st1 ! data)) classes of
             Inl e \<Rightarrow> Inl e
           | Inr classes_idx \<Rightarrow>
               Inr (Subset (ImageFolder data)
                      (train_keep (samples (st1 ! data)) (snd placement) classes_idx), st1)))"

definition test_subset ::
  "disk \<Rightarrow> string \<Rightarrow> transform \<Rightarrow> bool \<Rightarrow> string list \<Rightarrow> nat \<Rightarrow> string \<Rightarrow> store
   \<Rightarrow> error + dataset \<times> store" where
  \<comment> \<open>The body of the loop over \<open>enumerate(comb_list)\<close>, lines 222-234.\<close>
  "test_subset disk root_dir t type1 classes ind location st =
     (case new_image_folder disk (placement_path root_dir type1 ind location) t st of
        Inl e \<Rightarrow> Inl e
      | Inr (data, st1) \<Rightarrow>
          (case class_indices (class_to_idx (st1 ! data)) classes of
             Inl e \<Rightarrow> Inl e
           | Inr classes_idx \<Rightarrow>
               Inr (Subset (ImageFolder data) (test_keep (samples (st1 ! data)) classes_idx), st1)))"

fun placements ::
  "(nat \<Rightarrow> 'p \<Rightarrow> store \<Rightarrow> error + dataset \<times> store) \<Rightarrow> nat \<Rightarrow> 'p list \<Rightarrow> store
   \<Rightarrow> error + dataset list \<times> store" where
  \<comment> \<open>\<open>for ind, placement in enumerate(comb_list)\<close>, from index \<open>ind\<close> on: the subsets
      appended to \<open>for_each_class_group[cg_index]\<close>.\<close>
  "placements body ind [] st = Inr ([], st)"
| "placements body ind (p # ps) st =
     (case body ind p st of
        Inl e \<Rightarrow> Inl e
      | Inr (sub, st1) \<Rightarrow>
          (case placements body (Suc ind) ps st1 of
             Inl e \<Rightarrow> Inl e
           | Inr (subsets, st2) \<Rightarrow> Inr (sub # subsets, st2)))"

fun class_groups ::
  "(string list \<Rightarrow> nat \<Rightarrow> 'p \<Rightarrow> store \<Rightarrow> error + dataset \<times> store)
   \<Rightarrow> (string list \<times> 'p list) list \<Rightarrow> store \<Rightarrow> error + dataset list list \<times> store" where
  \<comment> \<open>\<open>for classes, comb_list in combinations.items()\<close>: the matrix
      \<open>for_each_class_group\<close>, one row per class group in the order of the dict.\<close>
  "class_groups body [] st = Inr ([], st)"
| "class_groups body ((classes, comb_list) # rest) st =
     (case placements (body classes) 0 comb_list st of
        Inl e \<Rightarrow> Inl e
      | Inr (row, st1) \<Rightarrow>
          (case class_groups body rest st1 of
             Inl e \<Rightarrow> Inl e
           | Inr (rows, st2) \<Rightarrow> Inr (row # rows, st2)))"

fun joint_groups :: "dataset list list \<Rightarrow> nat list \<Rightarrow> error + dataset list" where
  \<comment> \<open>\<open>for group in range(...)\<close>: \<open>ConcatDataset([for_each_class_group[k][group] for k in
      range(len(for_each_class_group))])\<close>; a row without position \<open>group\<close> raises.\<close>
  "joint_groups m [] = Inr []"
| "joint_groups m (grp # rest) =
     (if \<exists>row \<in> set m. length row \<le> grp then Inl IndexError
      else (case joint_groups m rest of
              Inl e \<Rightarrow> Inl e
            | Inr joints \<Rightarrow> Inr (ConcatDataset (map (\<lambda>row. row ! grp) m) # joints)))"

definition joint_datasets :: "dataset list list \<Rightarrow> error + dataset list" where
  \<comment> \<open>Lines 197-205 and 236-244; \<open>for_each_class_group[0]\<close> raises on an empty dict.\<close>
  "joint_datasets m =
     (case m of
        [] \<Rightarrow> Inl IndexError
      | first # _ \<Rightarrow> joint_groups m [0..<length first])"

fun folders ::
  "disk \<Rightarrow> string \<Rightarrow> transform \<Rightarrow> bool \<Rightarrow> nat \<Rightarrow> string list \<Rightarrow> store
   \<Rightarrow> error + dataset list \<times> store" where
  \<comment> \<open>The branch for combinations that are not a dict: one whole image folder per
      location.\<close>
  "folders disk root_dir t type1 ind [] st = Inr ([], st)"
| "folders disk root_dir t type1 ind (location # rest) st =
     (case new_image_folder disk (placement_path root_dir type1 ind location) t st of
        Inl e \<Rightarrow> Inl e
      | Inr (data, st1) \<Rightarrow>
          (case folders disk root_dir t type1 (Suc ind) rest st1 of
             Inl e \<Rightarrow> Inl e
           | Inr (ds, st2) \<Rightarrow> Inr (ImageFolder data # ds, st2)))"

datatype 'p combinations =
    Dict "(string list \<times> 'p list) list"
  | Locations "string list"

definition train_data_list ::
  "disk \<Rightarrow> (string \<times> int) combinations \<Rightarrow> string \<Rightarrow> transform \<Rightarrow> bool \<Rightarrow> store
   \<Rightarrow> error + dataset list \<times> store" where
  \<comment> \<open>Lines 169-212. In the branch without a dict the path is always below \<open>0/\<close>.\<close>
  "train_data_list disk train_combinations root_dir t type1 st =
     (case train_combinations of
        Dict d \<Rightarrow>
          (case class_groups (train_subset disk root_dir t type1) d st of
             Inl e \<Rightarrow> Inl e
           | Inr (for_each_class_group, st1) \<Rightarrow>
               (case joint_datasets for_each_class_group of
                  Inl e \<Rightarrow> Inl e
                | Inr joints \<Rightarrow> Inr (joints, st1)))
      | Locations ls \<Rightarrow> folders disk root_dir t False 0 ls st)"

definition test_data_list ::
  "disk \<Rightarrow> string combinations \<Rightarrow> string \<Rightarrow> bool \<Rightarrow> store \<Rightarrow> error + dataset list \<times> store" where
  \<comment> \<open>Lines 214-253.\<close>
  "test_data_list disk test_combinations root_dir type1 st =
     (case test_combinations of
        Dict d \<Rightarrow>
          (case class_groups (test_subset disk root_dir Plain type1) d st of
             Inl e \<Rightarrow> Inl e
           | Inr (for_each_class_group, st1) \<Rightarrow>
               (case joint_datasets for_each_class_group of
                  Inl e \<Rightarrow> Inl e
                | Inr joints \<Rightarrow> Inr (joints, st1)))
      | Locations ls \<Rightarrow> folders disk root_dir Plain type1 0 ls st)"

definition SpawriousBenchmark_init ::
  "disk \<Rightarrow> (string \<times> int) combinations \<Rightarrow> string combinations \<Rightarrow> string \<Rightarrow> bool \<Rightarrow> bool \<Rightarrow> store
   \<Rightarrow> error + dataset list \<times> store" where
  \<comment> \<open>\<open>SpawriousBenchmark.__init__\<close>: the list \<open>self.datasets\<close> and the store with the
      image folders it opened. \<open>ConcatDataset\<close> asserts that its list is not empty.\<close>
  "SpawriousBenchmark_init disk train_combinations test_combinations root_dir augment type1 st =
     (case train_data_list disk train_combinations root_dir
             (if augment then Augmenting else Plain) type1 st of
        Inl e \<Rightarrow> Inl e
      | Inr (train, st1) \<Rightarrow>
          (case test_data_list disk test_combinations root_dir type1 st1 of
             Inl e \<Rightarrow> Inl e
           | Inr (test, st2) \<Rightarrow>
               if test = [] then Inl AssertionError
               else Inr (ConcatDataset test # train, st2)))"


section \<open>Rebinding paths\<close>

definition rebind :: "string \<Rightarrow> string \<Rightarrow> string" where
  \<comment> \<open>\<open>os.path.join(to_prepend, path.replace("./data/", ""))\<close>\<close>
  "rebind to_prepend path = os_path_join to_prepend (py_replace ''./data/'' [] path)"

definition rebind_folder :: "string \<Rightarrow> image_folder \<Rightarrow> image_folder" where
  \<comment> \<open>Lines 264-276 on one image folder: the assignment to \<open>root\<close> and the loop over
      the indices of \<open>samples\<close>.\<close>
  "rebind_folder to_prepend data =
     data\<lparr>root := rebind to_prepend (root data),
          samples := map (\<lambda>sample. (rebind to_prepend (fst sample), snd sample)) (samples data)\<rparr>"

fun prepend_two :: "string \<Rightarrow> dataset list \<Rightarrow> store \<Rightarrow> error option \<times> store" where
  \<comment> \<open>\<open>for two in one.datasets\<close>: \<open>two.dataset\<close> exists on a \<open>Subset\<close> only, and \<open>root\<close>
      and \<open>samples\<close> on an image folder only.\<close>
  "prepend_two to_prepend [] st = (None, st)"
| "prepend_two to_prepend (Subset (ImageFolder a) indices # rest) st =
     prepend_two to_prepend rest (st[a := rebind_folder to_prepend (st ! a)])"
| "prepend_two to_prepend (two # rest) st = (Some AttributeError, st)"

fun prepend_one :: "string \<Rightarrow> dataset list \<Rightarrow> store \<Rightarrow> error option \<times> store" where
  \<comment> \<open>\<open>for one in ...\<close>: \<open>one.datasets\<close> exists on a \<open>ConcatDataset\<close> only.\<close>
  "prepend_one to_prepend [] st = (None, st)"
| "prepend_one to_prepend (ConcatDataset twos # rest) st =
     (case prepend_two to_prepend twos st of
        (Some e, st1) \<Rightarrow> (Some e, st1)
      | (None, st1) \<Rightarrow> prepend_one to_prepend rest st1)"
| "prepend_one to_prepend (one # rest) st = (Some AttributeError, st)"

fun prepend_path :: "string \<Rightarrow> dataset list \<Rightarrow> store \<Rightarrow> error option \<times> store" where
  \<comment> \<open>\<open>self.datasets[0].datasets + self.datasets[1:]\<close>\<close>
  "prepend_path to_prepend [] st = (Some IndexError, st)"
| "prepend_path to_prepend (ConcatDataset tests # trains) st =
     prepend_one to_prepend (tests @ trains) st"
| "prepend_path to_prepend (d # trains) st = (Some AttributeError, st)"


section \<open>The benchmark catalogue\<close>

text \<open>
  \<open>int(0.97 * total)\<close> is computed in binary floating point. A finite non-negative
  double is the fraction \<open>p / q\<close> of two integers it denotes (\<open>q\<close> a power of two); a
  decimal literal and a product are the exact value rounded to the nearest double, ties to
  the even significand. The search for the exponent is bounded by the exponent range of
  the format, so that values below the normal range round on the grid of the subnormal
  numbers; results beyond the largest double are not modelled.
\<close>

definition round_half_even :: "int \<Rightarrow> int \<Rightarrow> int" where
  \<comment> \<open>The integer nearest to \<open>a / b\<close>, a tie going to the even one.\<close>
  "round_half_even a b =
     (let f = a div b; r = a mod b
      in if 2 * r < b then f else if b < 2 * r then f + 1 else if even f then f else f + 1)"

fun scale_up :: "nat \<Rightarrow> int \<Rightarrow> int \<Rightarrow> nat" where
  \<comment> \<open>How often to double \<open>p / q\<close> to reach \<open>2^52\<close>, at most \<open>fuel\<close> times.\<close>
  "scale_up 0 p q = 0"
| "scale_up (Suc fuel) p q = (if p < q * 2 ^ 52 then Suc (scale_up fuel (2 * p) q) else 0)"

fun scale_down :: "nat \<Rightarrow> int \<Rightarrow> int \<Rightarrow> nat" where
  \<comment> \<open>How often to halve \<open>p / q\<close> to get below \<open>2^53\<close>, at most \<open>fuel\<close> times.\<close>
  "scale_down 0 p q = 0"
| "scale_down (Suc fuel) p q = (if q * 2 ^ 53 \<le> p then Suc (scale_down fuel p (2 * q)) else 0)"

definition nearest_double :: "int \<times> int \<Rightarrow> int \<times> int" where
  "nearest_double x =
     (case x of (p, q) \<Rightarrow>
        if p < q * 2 ^ 52
        then (let k = scale_up 1074 p q in (round_half_even (p * 2 ^ k) q, 2 ^ k))
        else (let k = scale_down 971 p q in (round_half_even p (q * 2 ^ k) * 2 ^ k, 1)))"

definition float_mul_int :: "int \<times> int \<Rightarrow> int \<Rightarrow> int \<times> int" where
  \<comment> \<open>\<open>x * n\<close> for a float \<open>x\<close> and an int \<open>n\<close>: \<open>n\<close> is converted to a float, and the
      product is rounded once.\<close>
  "float_mul_int x n =
     (case (x, nearest_double (n, 1)) of
        ((p, q), (p', q')) \<Rightarrow> nearest_double (p * p', q * q'))"

definition py_int :: "int \<times> int \<Rightarrow> int" where
  \<comment> \<open>\<open>int(x)\<close> on a non-negative float: truncation.\<close>
  "py_int x = (case x of (p, q) \<Rightarrow> p div q)"

definition total :: int where
  "total = 3168"

definition counts :: "int list" where
  \<comment> \<open>\<open>counts = [int(0.97 * total), int(0.87 * total)]\<close>\<close>
  "counts = [py_int (float_mul_int (nearest_double (97, 100)) total),
             py_int (float_mul_int (nearest_double (87, 100)) total)]"

record combination =
  train_combinations :: "(string list \<times> (string \<times> int) list) list"
  test_combinations :: "(string list \<times> string list) list"

definition build_type1_combination :: "string list \<Rightarrow> string list \<Rightarrow> string \<Rightarrow> error + combination" where
  \<comment> \<open>\<open>group[0]\<close> to \<open>group[3]\<close> and \<open>test[0]\<close> to \<open>test[3]\<close> raise on a shorter list.\<close>
  "build_type1_combination grp test filler =
     (if length grp < 4 \<or> length test < 4 then Inl IndexError
      else Inr
        \<lparr>train_combinations =
           [([''bulldog''], [(grp ! 0, counts ! 0), (grp ! 0, counts ! 1)]),
            ([''dachshund''], [(grp ! 1, counts ! 0), (grp ! 1, counts ! 1)]),
            ([''labrador''], [(grp ! 2, counts ! 0), (grp ! 2, counts ! 1)]),
            ([''corgi''], [(grp ! 3, counts ! 0), (grp ! 3, counts ! 1)]),
            ([''bulldog'', ''dachshund'', ''labrador'', ''corgi''],
             [(filler, total - counts ! 0), (filler, total - counts ! 1)])],
         test_combinations =
           [([''bulldog''], [test ! 0, test ! 0]),
            ([''dachshund''], [test ! 1, test ! 1]),
            ([''labrador''], [test ! 2, test ! 2]),
            ([''corgi''], [test ! 3, test ! 3])]\<rparr>)"

definition build_type2_combination :: "string list \<Rightarrow> string list \<Rightarrow> error + combination" where
  "build_type2_combination grp test =
     (if length grp < 4 \<or> length test < 4 then Inl IndexError
      else Inr
        \<lparr>train_combinations =
           [([''bulldog''], [(grp ! 0, total), (grp ! 1, total)]),
            ([''dachshund''], [(grp ! 1, total), (grp ! 0, total)]),
            ([''labrador''], [(grp ! 2, total), (grp ! 3, total)]),
            ([''corgi''], [(grp ! 3, total), (grp ! 2, total)])],
         test_combinations =
           [([''bulldog''], [test ! 0, test ! 1]),
            ([''dachshund''], [test ! 1, test ! 0]),
            ([''labrador''], [test ! 2, test ! 3]),
            ([''corgi''], [test ! 3, test ! 2])]\<rparr>)"

definition benchmark ::
  "error + combination \<Rightarrow> disk \<Rightarrow> string \<Rightarrow> bool \<Rightarrow> bool \<Rightarrow> store \<Rightarrow> error + dataset list \<times> store" where
  \<comment> \<open>The \<open>__init__\<close> the six subclasses share: \<open>super().__init__\<close> on the two
      combinations, with \<open>hparams["data_augmentation"]\<close> for \<open>augment\<close>.\<close>
  "benchmark combinations disk root_dir data_augmentation type1 st =
     (case combinations of
        Inl e \<Rightarrow> Inl e
      | Inr c \<Rightarrow>
          SpawriousBenchmark_init disk (Dict (train_combinations c)) (Dict (test_combinations c))
            root_dir data_augmentation type1 st)"

definition SpuriousLocationType1_1 :: "disk \<Rightarrow> string \<Rightarrow> bool \<Rightarrow> store \<Rightarrow> error + dataset list \<times> store" where
  "SpuriousLocationType1_1 disk root_dir data_augmentation st =
     benchmark (build_type1_combination [''desert'', ''jungle'', ''dirt'', ''snow'']
                  [''dirt'', ''snow'', ''desert'', ''jungle''] ''beach'')
       disk root_dir data_augmentation True st"

definition SpuriousLocationType1_2 :: "disk \<Rightarrow> string \<Rightarrow> bool \<Rightarrow> store \<Rightarrow> error + dataset list \<times> store" where
  "SpuriousLocationType1_2 disk root_dir data_augmentation st =
     benchmark (build_type1_combination [''mountain'', ''beach'', ''dirt'', ''jungle'']
                  [''jungle'', ''dirt'', ''beach'', ''snow''] ''desert'')
       disk root_dir data_augmentation True st"

definition SpuriousLocationType1_3 :: "disk \<Rightarrow> string \<Rightarrow> bool \<Rightarrow> store \<Rightarrow> error + dataset list \<times> store" where
  "SpuriousLocationType1_3 disk root_dir data_augmentation st =
     benchmark (build_type1_combination [''jungle'', ''mountain'', ''snow'', ''desert'']
                  [''mountain'', ''snow'', ''desert'', ''jungle''] ''beach'')
       disk root_dir data_augmentation True st"

definition SpuriousLocationType2_1 :: "disk \<Rightarrow> string \<Rightarrow> bool \<Rightarrow> store \<Rightarrow> error + dataset list \<times> store" where
  "SpuriousLocationType2_1 disk root_dir data_augmentation st =
     benchmark (build_type2_combination [''dirt'', ''jungle'', ''snow'', ''beach'']
                  [''snow'', ''beach'', ''dirt'', ''jungle''])
       disk root_dir data_augmentation False st"

definition SpuriousLocationType2_2 :: "disk \<Rightarrow> string \<Rightarrow> bool \<Rightarrow> store \<Rightarrow> error + dataset list \<times> store" where
  "SpuriousLocationType2_2 disk root_dir data_augmentation st =
     benchmark (build_type2_combination [''desert'', ''mountain'', ''dirt'', ''jungle'']
                  [''dirt'', ''jungle'', ''mountain'', ''desert''])
       disk root_dir data_augmentation False st"

definition SpuriousLocationType2_3 :: "disk \<Rightarrow> string \<Rightarrow> bool \<Rightarrow> store \<Rightarrow> error + dataset list \<times> store" where
  "SpuriousLocationType2_3 disk root_dir data_augmentation st =
     benchmark (build_type2_combination [''beach'', ''snow'', ''mountain'', ''desert'']
                  [''desert'', ''mountain'', ''beach'', ''snow''])
       disk root_dir data_augmentation False st"


text \<open>
  The sample count of a Type-1 placement in the words of the specification:
  \<open>round(p/100 \<times> 3168)\<close>, the integer nearest to the exact product.
\<close>

definition spec_count :: "int \<Rightarrow> int" where
  "spec_count percent = round_half_even (percent * total) 100"



section \<open>Loading a snapshot\<close>

definition filename_map :: "(string \<times> string) list" where
  "filename_map =
     [(''o2o_easy'', ''sc11.pth''), (''o2o_medium'', ''sc12.pth''), (''o2o_hard'', ''sc13.pth''),
      (''m2m_easy'', ''sc22.pth''), (''m2m_medium'', ''sc23.pth''), (''m2m_hard'', ''sc21.pth'')]"

type_synonym snapshots = "string \<Rightarrow> (dataset list \<times> store) option"

definition get_torch_dataset ::
  "world \<Rightarrow> snapshots \<Rightarrow> string \<Rightarrow> string \<Rightarrow> files
   \<Rightarrow> (error + dataset list \<times> store) \<times> effect list \<times> files" where
  \<comment> \<open>\<open>torch.load\<close> is the snapshots: the benchmark object pickled at a path (its
      \<open>datasets\<close> and the image folders they refer to), or nothing when loading raises.\<close>
  "get_torch_dataset w snaps dataset_name root_dir fs =
     (case download_spawrious_dataset w dataset_name root_dir fs of
        (Some e, effs, fs1) \<Rightarrow> (Inl e, effs, fs1)
      | (None, effs, fs1) \<Rightarrow>
          (case map_of filename_map (py_lower dataset_name) of
             None \<Rightarrow> (Inl (ValueError (''Invalid dataset type: '' @ dataset_name)), effs, fs1)
           | Some filename \<Rightarrow>
               (let path_to_dataset = os_path_join (os_path_join root_dir ''spawrious224'') filename
                in case snaps path_to_dataset of
                     None \<Rightarrow> (Inl (FileNotFoundError path_to_dataset), effs, fs1)
                   | Some (datasets, st) \<Rightarrow>
                       (case prepend_path root_dir datasets st of
                          (Some e, st1) \<Rightarrow> (Inl e, effs, fs1)
                        | (None, st1) \<Rightarrow> (Inr (datasets, st1), effs, fs1)))))"


section \<open>What a built benchmark holds\<close>

text \<open>
  The descriptions below are stated on the disk alone, without the store, to say what the
  datasets of a built benchmark yield. \<open>offset d k\<close> counts the placements of the class
  groups before the \<open>k\<close>-th: image folders are opened one per placement, class group by
  class group, so the placement at position \<open>g\<close> of class group \<open>k\<close> is the object at
  address \<open>offset d k + g\<close> above the store the construction started from.
\<close>

definition offset :: "('c \<times> 'p list) list \<Rightarrow> nat \<Rightarrow> nat" where
  "offset d k = sum_list (map (\<lambda>entry. length (snd entry)) (take k d))"

fun addresses :: "dataset \<Rightarrow> nat list" where
  "addresses (ImageFolder a) = [a]"
| "addresses (Subset d indices) = addresses d"
| "addresses (ConcatDataset ds) = concat (map addresses ds)"

definition members :: "dataset \<Rightarrow> dataset list" where
  \<comment> \<open>The attribute \<open>datasets\<close> of a \<open>ConcatDataset\<close>.\<close>
  "members d = (case d of ConcatDataset ds \<Rightarrow> ds | _ \<Rightarrow> [])"

fun indices_ok :: "store \<Rightarrow> dataset \<Rightarrow> bool" where
  \<comment> \<open>Every \<open>Subset\<close> selects positions that its dataset has.\<close>
  "indices_ok st (ImageFolder a) = True"
| "indices_ok st (Subset d indices) =
     (indices_ok st d \<and> (\<forall>i \<in> set indices. i < length (items st d)))"
| "indices_ok st (ConcatDataset ds) = (\<forall>d \<in> set ds. indices_ok st d)"

definition rebind_sample :: "string \<Rightarrow> string \<times> nat \<Rightarrow> string \<times> nat" where
  \<comment> \<open>What line 270 stores for a sample: the rebound path with the label it had.\<close>
  "rebind_sample to_prepend sample = (rebind to_prepend (fst sample), snd sample)"


definition train_placement ::
  "disk \<Rightarrow> string \<Rightarrow> transform \<Rightarrow> bool \<Rightarrow> string list \<Rightarrow> nat \<Rightarrow> string \<times> int
   \<Rightarrow> image_folder \<Rightarrow> nat list \<Rightarrow> bool" where
  \<comment> \<open>\<open>data\<close> and \<open>indices\<close> are the image folder opened for a training placement at
      position \<open>g\<close> and the indices the scan keeps from it.\<close>
  "train_placement disk root_dir t type1 classes g placement data indices =
     (case disk (placement_path root_dir type1 g (fst placement)) of
        None \<Rightarrow> False
      | Some opened \<Rightarrow>
          data = opened\<lparr>transform := t\<rparr>
          \<and> (case class_indices (class_to_idx opened) classes of
                Inl e \<Rightarrow> False
              | Inr classes_idx \<Rightarrow> indices = train_keep (samples opened) (snd placement) classes_idx))"

definition test_placement ::
  "disk \<Rightarrow> string \<Rightarrow> bool \<Rightarrow> string list \<Rightarrow> nat \<Rightarrow> string \<Rightarrow> image_folder \<Rightarrow> nat list \<Rightarrow> bool" where
  "test_placement disk root_dir type1 classes g location data indices =
     (case disk (placement_path root_dir type1 g location) of
        None \<Rightarrow> False
      | Some opened \<Rightarrow>
          data = opened\<lparr>transform := Plain\<rparr>
          \<and> (case class_indices (class_to_idx opened) classes of
                Inl e \<Rightarrow> False
              | Inr classes_idx \<Rightarrow> indices = test_keep (samples opened) classes_idx))"

definition train_placement_items ::
  "disk \<Rightarrow> string \<Rightarrow> bool \<Rightarrow> string list \<Rightarrow> nat \<Rightarrow> string \<times> int \<Rightarrow> (string \<times> nat) list" where
  \<comment> \<open>The samples the scan of lines 182-191 keeps from the folder of a placement.\<close>
  "train_placement_items disk root_dir type1 classes g placement =
     (case disk (placement_path root_dir type1 g (fst placement)) of
        None \<Rightarrow> []
      | Some data \<Rightarrow>
          (case class_indices (class_to_idx data) classes of
             Inl e \<Rightarrow> []
           | Inr classes_idx \<Rightarrow>
               map (\<lambda>i. samples data ! i) (train_keep (samples data) (snd placement) classes_idx)))"

definition test_placement_items ::
  "disk \<Rightarrow> string \<Rightarrow> bool \<Rightarrow> string list \<Rightarrow> nat \<Rightarrow> string \<Rightarrow> (string \<times> nat) list" where
  \<comment> \<open>In the words of the specification: every item of the folder whose label is in
      the class set of the group, in storage order, without a cap.\<close>
  "test_placement_items disk root_dir type1 classes g location =
     (case disk (placement_path root_dir type1 g location) of
        None \<Rightarrow> []
      | Some data \<Rightarrow>
          filter (\<lambda>sample. \<exists>c \<in> set classes. map_of (class_to_idx data) c = Some (snd sample))
            (samples data))"

definition train_group_items ::
  "disk \<Rightarrow> string \<Rightarrow> bool \<Rightarrow> (string list \<times> (string \<times> int) list) list \<Rightarrow> nat
   \<Rightarrow> (string \<times> nat) list" where
  \<comment> \<open>Joint training dataset \<open>g\<close>: the placements at position \<open>g\<close>, class group by class
      group.\<close>
  "train_group_items disk root_dir type1 d g =
     concat (map (\<lambda>entry. train_placement_items disk root_dir type1 (fst entry) g (snd entry ! g)) d)"

definition test_group_items ::
  "disk \<Rightarrow> string \<Rightarrow> bool \<Rightarrow> (string list \<times> string list) list \<Rightarrow> nat \<Rightarrow> (string \<times> nat) list" where
  "test_group_items disk root_dir type1 d g =
     concat (map (\<lambda>entry. test_placement_items disk root_dir type1 (fst entry) g (snd entry ! g)) d)"

definition flat_test_items ::
  "disk \<Rightarrow> string \<Rightarrow> bool \<Rightarrow> (string list \<times> string list) list \<Rightarrow> (string \<times> nat) list" where
  \<comment> \<open>The joint test collections of all group indices, concatenated in index order.\<close>
  "flat_test_items disk root_dir type1 d =
     concat (map (test_group_items disk root_dir type1 d) [0..<length (snd (hd d))])"

text \<open>
  The cap of a placement in the words of the specification: for each class of the group,
  the first \<open>cap\<close> items of that class in storage order.
\<close>

definition spec_capped :: "(string \<times> nat) list \<Rightarrow> int \<Rightarrow> nat list \<Rightarrow> (string \<times> nat) list" where
  "spec_capped smp cap classes_idx =
     concat (map (\<lambda>c. take (nat cap) (filter (\<lambda>sample. snd sample = c) smp)) classes_idx)"

text \<open>
  Rebinding in the words of the specification: the placeholder prefix is stripped and the
  new root substituted.
\<close>

definition spec_strip_prefix :: "string \<Rightarrow> string \<Rightarrow> string" where
  "spec_strip_prefix pre path = (if prefix pre path then drop (length pre) path else path)"

definition spec_rebind :: "string \<Rightarrow> string \<Rightarrow> string" where
  "spec_rebind new_root path = os_path_join new_root (spec_strip_prefix ''./data/'' path)"



section \<open>Concrete worlds and runs\<close>

definition demo_world :: world where
  \<comment> \<open>The network answers every request with a small body; every archive unpacks.\<close>
  "demo_world = \<lparr>urlopen = (\<lambda>url. Some [Buffer ''tar'', Buffer []]), untar = (\<lambda>archive. True)\<rparr>"

definition corrupt_world :: world where
  \<comment> \<open>The network answers, but no archive unpacks.\<close>
  "corrupt_world = \<lparr>urlopen = (\<lambda>url. Some [Buffer ''tar'', Buffer []]), untar = (\<lambda>archive. False)\<rparr>"

definition offline_world :: world where
  \<comment> \<open>No network, and no archive unpacks.\<close>
  "offline_world = \<lparr>urlopen = (\<lambda>url. None), untar = (\<lambda>archive. False)\<rparr>"

definition run_easy :: run where
  "run_easy = download_dataset_if_not_available demo_world ''o2o_easy'' ''data'' True Map.empty"

definition run_easy_m2m :: run where
  "run_easy_m2m =
     download_dataset_if_not_available demo_world ''m2m_hard'' ''data'' True (snd (snd run_easy))"

definition run_easy_m2m_easy :: run where
  "run_easy_m2m_easy =
     download_dataset_if_not_available demo_world ''o2o_easy'' ''data'' True (snd (snd run_easy_m2m))"

definition run_corrupt :: run where
  "run_corrupt = download_dataset_if_not_available corrupt_world ''o2o_easy'' ''data'' True Map.empty"


definition demo_disk :: disk where
  \<comment> \<open>Every directory holds the four classes with two images each, as the
      constructor lists them: classes in alphabetical order, samples class by class.\<close>
  "demo_disk path =
     Some \<lparr>root = path,
           class_to_idx = [(''bulldog'', 0), (''corgi'', 1), (''dachshund'', 2), (''labrador'', 3)],
           samples = [(path @ ''bulldog/a.png'', 0), (path @ ''bulldog/b.png'', 0),
                      (path @ ''corgi/a.png'', 1), (path @ ''corgi/b.png'', 1),
                      (path @ ''dachshund/a.png'', 2), (path @ ''dachshund/b.png'', 2),
                      (path @ ''labrador/a.png'', 3), (path @ ''labrador/b.png'', 3)],
           transform = Plain\<rparr>"


definition demo_train :: "(string list \<times> (string \<times> int) list) list" where
  "demo_train =
     [([''bulldog''], [(''beach'', 1), (''beach'', 2)]),
      ([''corgi'', ''labrador''], [(''snow'', 1), (''dirt'', 1)])]"

definition demo_test :: "(string list \<times> string list) list" where
  "demo_test =
     [([''bulldog''], [''jungle'', ''dirt'']),
      ([''corgi''], [''beach'', ''beach''])]"

definition demo_built :: "error + dataset list \<times> store" where
  "demo_built =
     SpawriousBenchmark_init demo_disk (Dict demo_train) (Dict demo_test)
       ''./data/spawrious224'' True False []"

definition demo_record :: "dataset list" where
  "demo_record = fst (projr demo_built)"

definition demo_store :: store where
  "demo_store = snd (projr demo_built)"


definition ragged_train :: "(string list \<times> (string \<times> int) list) list" where
  \<comment> \<open>The second class group has one placement more than the first.\<close>
  "ragged_train =
     [([''bulldog''], [(''beach'', 1)]),
      ([''corgi''], [(''snow'', 1), (''dirt'', 1)])]"

definition ragged_built :: "error + dataset list \<times> store" where
  "ragged_built =
     SpawriousBenchmark_init demo_disk (Dict ragged_train) (Dict demo_test)
       ''./data/spawrious224'' True False []"

definition ragged_rev_built :: "error + dataset list \<times> store" where
  "ragged_rev_built =
     SpawriousBenchmark_init demo_disk (Dict (rev ragged_train)) (Dict demo_test)
       ''./data/spawrious224'' True False []"


definition type1_built :: "error + dataset list \<times> store" where
  "type1_built = SpuriousLocationType1_1 demo_disk ''./data/spawrious224'' True []"

definition type1_record :: "dataset list" where
  "type1_record = fst (projr type1_built)"

definition type1_store :: store where
  "type1_store = snd (projr type1_built)"


section \<open>Lines of a text file\<close>

lemma keepends_Nil_iff [simp]: "keepends xs = [] \<longleftrightarrow> xs = []"
  by (cases xs) (auto split: list.splits)

lemma keepends_append_LF: "keepends (p @ LF # r) = keepends (p @ [LF]) @ keepends r"
proof (induction p)
  case Nil
  show ?case by simp
next
  case (Cons c p)
  show ?case
  proof (cases "c = LF")
    case True
    with Cons show ?thesis by simp
  next
    case False
    obtain l ls where l: "keepends (p @ [LF]) = l # ls"
      by (cases "keepends (p @ [LF])") auto
    with False Cons show ?thesis by simp
  qed
qed

lemma keepends_one_line: "LF \<notin> set n \<Longrightarrow> n \<noteq> [] \<Longrightarrow> keepends n = [n]"
proof (induction n)
  case Nil
  then show ?case by simp
next
  case (Cons c n)
  then show ?case by (cases "n = []") auto
qed

lemma universal_newlines_id: "CR \<notin> set n \<Longrightarrow> universal_newlines n = n"
  by (induction n rule: universal_newlines.induct) auto

lemma universal_newlines_tail:
  "CR \<notin> set n \<Longrightarrow> \<exists>p. universal_newlines (m @ LF # n) = p @ LF # n"
proof (induction m rule: universal_newlines.induct)
  case 1
  then show ?case
    using universal_newlines_id [of "LF # n"] by (auto simp: LF_def CR_def)
next
  case (2 c)
  then show ?case
    using universal_newlines_id [of "LF # n"] universal_newlines_id [of n]
    by (cases "c = CR") (auto simp: LF_def CR_def)
next
  case (3 c d ds)
  show ?case
  proof (cases "c = CR \<and> d = LF")
    case True
    with 3 obtain p where "universal_newlines (ds @ LF # n) = p @ LF # n" by blast
    with True show ?thesis by (auto intro: exI [of _ "LF # p"])
  next
    case False
    with 3 obtain q where "universal_newlines ((d # ds) @ LF # n) = q @ LF # n"
      by (cases "c = CR") blast+
    with False show ?thesis
      by (cases "c = CR") (auto intro: exI [of _ "LF # q"] exI [of _ "c # q"])
  qed
qed

lemma readlines_appended:
  assumes "CR \<notin> set n" "LF \<notin> set n" "n \<noteq> []"
  shows "n \<in> set (readlines (m @ LF # n))"
proof -
  obtain p where "universal_newlines (m @ LF # n) = p @ LF # n"
    using universal_newlines_tail [OF assms(1)] by blast
  then have "readlines (m @ LF # n) = keepends (p @ [LF]) @ [n]"
    using keepends_append_LF [of p n] keepends_one_line [OF assms(2,3)]
    by (simp add: readlines_def)
  then show ?thesis by simp
qed

lemma already_extracted_appended:
  "CR \<notin> set n \<Longrightarrow> LF \<notin> set n \<Longrightarrow> n \<noteq> [] \<Longrightarrow> already_extracted n (m @ LF # n)"
  by (simp add: already_extracted_def readlines_appended)

lemma url_dict_names:
  "map_of url_dict n = Some url \<Longrightarrow> CR \<notin> set n \<and> LF \<notin> set n \<and> n \<noteq> []"
  by (auto simp: url_dict_def CR_def LF_def split: if_splits)

lemma last_os_path_join: "b \<noteq> [] \<Longrightarrow> last (os_path_join a b) = last b"
  by (simp add: os_path_join_def)

lemma manifest_not_tar:
  "os_path_join d ''datasets.txt'' \<noteq> os_path_join d (''spawrious__'' @ n @ ''.tar.gz'')"
proof
  assume "os_path_join d ''datasets.txt'' = os_path_join d (''spawrious__'' @ n @ ''.tar.gz'')"
  then have "last (os_path_join d ''datasets.txt'') = last (os_path_join d (''spawrious__'' @ n @ ''.tar.gz''))"
    by simp
  then show False
    by (simp add: last_os_path_join)
qed


section \<open>Properties of the download\<close>

lemma extract_and_mark_cases:
  assumes "extract_and_mark w tfn dir flag n fs = (e, effs, fs1)"
  shows "(e = Some (FileNotFoundError (os_path_join dir tfn)) \<and> effs = [] \<and> fs1 = fs \<and> fs (os_path_join dir tfn) = None)
       \<or> (e = Some ExtractError \<and> effs = [Unpack (os_path_join dir tfn) (os_path_dirname (os_path_join dir tfn))] \<and> fs1 = fs
            \<and> (\<exists>a. fs (os_path_join dir tfn) = Some a \<and> \<not> untar w a))
       \<or> (e = None \<and> (\<exists>a. fs (os_path_join dir tfn) = Some a \<and> untar w a)
            \<and> effs = Unpack (os_path_join dir tfn) (os_path_dirname (os_path_join dir tfn))
                      # (if flag then [Remove (os_path_join dir tfn)] else [])
                      @ [Append (os_path_join dir ''datasets.txt'') (LF # n)]
            \<and> fs1 = (if flag then fs(os_path_join dir tfn := None) else fs)
                     (os_path_join dir ''datasets.txt'' \<mapsto>
                        (case (if flag then fs(os_path_join dir tfn := None) else fs) (os_path_join dir ''datasets.txt'') of None \<Rightarrow> [] | Some c \<Rightarrow> c) @ LF # n))"
  using assms
  by (auto simp: extract_and_mark_def extract_dataset_from_tar_def Let_def
           split: option.splits if_splits)

lemma download_noop:
  assumes "map_of url_dict (normalize_name name) = Some url"
    and "fs (os_path_join dir ''datasets.txt'') = Some c"
    and "already_extracted (normalize_name name) c"
  shows "download_dataset_if_not_available w name dir flag fs = (None, [], fs)"
  using assms by (simp add: download_dataset_if_not_available_def Let_def)

lemma download_ok_listed:
  assumes "download_dataset_if_not_available w name dir flag fs = (None, effs, fs1)"
  shows "\<exists>url c. map_of url_dict (normalize_name name) = Some url
           \<and> fs1 (os_path_join dir ''datasets.txt'') = Some c
           \<and> already_extracted (normalize_name name) c"
proof -
  let ?n = "normalize_name name"
  let ?tfn = "''spawrious__'' @ ?n @ ''.tar.gz''"
  let ?m = "os_path_join dir ''datasets.txt''"
  obtain url where url: "map_of url_dict ?n = Some url"
    using assms by (cases "map_of url_dict ?n") (auto simp: download_dataset_if_not_available_def Let_def)
  note clean = url_dict_names [OF url]
  have marked: "\<exists>c. fs' ?m = Some c \<and> already_extracted ?n c"
    if "extract_and_mark w ?tfn dir flag ?n fs0 = (None, effs', fs')" for fs0 effs' fs'
    using extract_and_mark_cases [OF that] clean
    by (auto simp: already_extracted_appended)
  show ?thesis
  proof (cases "\<exists>c. fs ?m = Some c \<and> already_extracted ?n c")
    case True
    then obtain c where c: "fs ?m = Some c" "already_extracted ?n c" by blast
    from download_noop [of name url fs dir c w flag, OF url c] assms have "fs1 = fs" by simp
    with url c show ?thesis by simp
  next
    case False
    show ?thesis
    proof (cases "fs (os_path_join dir ?tfn)")
      case (Some a)
      with False url assms have "extract_and_mark w ?tfn dir flag ?n fs = (None, effs, fs1)"
        by (auto simp: download_dataset_if_not_available_def Let_def split: option.splits if_splits)
      from marked [OF this] url show ?thesis by simp
    next
      case None
      with False url assms obtain body effs' where
        "extract_and_mark w ?tfn dir flag ?n (fs(os_path_join dir ?tfn \<mapsto> body)) = (None, effs', fs1)"
        by (auto simp: download_dataset_if_not_available_def Let_def
                 split: option.splits if_splits prod.splits)
      from marked [OF this] url show ?thesis by simp
    qed
  qed
qed

lemma download_cases:
  assumes "download_dataset_if_not_available w name dir flag fs = (e, effs, fs1)"
    and "map_of url_dict (normalize_name name) = Some url"
  shows "(\<exists>c. fs (manifest_path dir) = Some c \<and> already_extracted (normalize_name name) c
            \<and> e = None \<and> effs = [] \<and> fs1 = fs)
       \<or> (\<not> (\<exists>c. fs (manifest_path dir) = Some c \<and> already_extracted (normalize_name name) c)
            \<and> fs (tar_path dir (normalize_name name)) \<noteq> None
            \<and> extract_and_mark w (''spawrious__'' @ normalize_name name @ ''.tar.gz'') dir flag
                 (normalize_name name) fs = (e, effs, fs1))
       \<or> (\<not> (\<exists>c. fs (manifest_path dir) = Some c \<and> already_extracted (normalize_name name) c)
            \<and> fs (tar_path dir (normalize_name name)) = None
            \<and> urlopen w url = None \<and> e = Some URLError \<and> effs = [] \<and> fs1 = fs)
       \<or> (\<not> (\<exists>c. fs (manifest_path dir) = Some c \<and> already_extracted (normalize_name name) c)
            \<and> fs (tar_path dir (normalize_name name)) = None
            \<and> (\<exists>response body. urlopen w url = Some response \<and> copy_body response = (body, False)
                  \<and> e = Some ReadFailed \<and> effs = [Fetch url (tar_path dir (normalize_name name))]
                  \<and> fs1 = fs(tar_path dir (normalize_name name) \<mapsto> body)))
       \<or> (\<not> (\<exists>c. fs (manifest_path dir) = Some c \<and> already_extracted (normalize_name name) c)
            \<and> fs (tar_path dir (normalize_name name)) = None
            \<and> (\<exists>response body effs'. urlopen w url = Some response \<and> copy_body response = (body, True)
                  \<and> extract_and_mark w (''spawrious__'' @ normalize_name name @ ''.tar.gz'') dir flag
                       (normalize_name name) (fs(tar_path dir (normalize_name name) \<mapsto> body)) = (e, effs', fs1)
                  \<and> effs = Fetch url (tar_path dir (normalize_name name)) # effs'))"
  using assms
  by (auto simp: download_dataset_if_not_available_def Let_def manifest_path_def tar_path_def
           split: option.splits if_splits prod.splits)

lemma manifest_path_neq_tar_path: "manifest_path d \<noteq> tar_path d n"
  using manifest_not_tar [of d n] by (simp add: manifest_path_def tar_path_def)

lemma download_unpacks_present:
  assumes "map_of url_dict (normalize_name name) = Some url"
    and "fs (tar_path dir (normalize_name name)) \<noteq> None"
    and "\<not> (\<exists>c. fs (manifest_path dir) = Some c \<and> already_extracted (normalize_name name) c)"
  shows "\<exists>e2 effs2 fs2. download_dataset_if_not_available w name dir flag fs =
           (e2, Unpack (tar_path dir (normalize_name name))
                  (os_path_dirname (tar_path dir (normalize_name name))) # effs2, fs2)"
  using assms
  by (auto simp: download_dataset_if_not_available_def Let_def manifest_path_def tar_path_def
                 extract_and_mark_def extract_dataset_from_tar_def
           split: option.splits)

lemma download_KeyError:
  "map_of url_dict (normalize_name name) = None \<Longrightarrow>
   download_dataset_if_not_available w name dir flag fs = (Some (KeyError (normalize_name name)), [], fs)"
  by (simp add: download_dataset_if_not_available_def Let_def)

lemma normalize_name_m2m: "normalize_name ''m2m'' = ''m2m''"
  by code_simp

lemma url_dict_m2m: "map_of url_dict ''m2m'' = Some m2m_url"
  by (simp add: url_dict_def m2m_url_def)

lemma download_normalized:
  "normalize_name a = normalize_name b \<Longrightarrow>
   download_dataset_if_not_available w a dir flag fs = download_dataset_if_not_available w b dir flag fs"
  by (simp add: download_dataset_if_not_available_def)

lemma download_fresh:
  assumes "map_of url_dict (normalize_name name) = Some url"
    and "fs (tar_path dir (normalize_name name)) = None"
    and "\<not> (\<exists>c. fs (manifest_path dir) = Some c \<and> already_extracted (normalize_name name) c)"
    and "urlopen w url = Some response" and "copy_body response = (body, True)" and "untar w body"
  shows "download_dataset_if_not_available w name dir flag fs =
           (None,
            Fetch url (tar_path dir (normalize_name name))
            # Unpack (tar_path dir (normalize_name name)) (os_path_dirname (tar_path dir (normalize_name name)))
            # (if flag then [Remove (tar_path dir (normalize_name name))] else [])
            @ [Append (manifest_path dir) (LF # normalize_name name)],
            (if flag then fs else fs(tar_path dir (normalize_name name) \<mapsto> body))
              (manifest_path dir \<mapsto>
                 (case fs (manifest_path dir) of None \<Rightarrow> [] | Some c \<Rightarrow> c) @ LF # normalize_name name))"
proof -
  have ne: "manifest_path dir \<noteq> tar_path dir (normalize_name name)"
    by (rule manifest_path_neq_tar_path)
  have upd: "fs(tar_path dir (normalize_name name) := None) = fs"
    using assms(2) by (simp add: fun_upd_idem)
  show ?thesis
  proof (cases "fs (manifest_path dir)")
    case None
    then show ?thesis using assms ne upd
      by (simp add: download_dataset_if_not_available_def Let_def extract_and_mark_def
            extract_dataset_from_tar_def tar_path_def manifest_path_def)
  next
    case (Some c)
    then show ?thesis using assms ne upd
      by (simp add: download_dataset_if_not_available_def Let_def extract_and_mark_def
            extract_dataset_from_tar_def tar_path_def manifest_path_def)
  qed
qed

lemma download_effects:
  assumes "download_dataset_if_not_available w name dir flag fs = (e, effs, fs1)"
    and "map_of url_dict (normalize_name name) = Some url"
  shows "(\<forall>u d. Fetch u d \<in> set effs \<longrightarrow> u = url \<and> d = tar_path dir (normalize_name name))
       \<and> (\<forall>p t. Append p t \<in> set effs \<longrightarrow>
             p = manifest_path dir \<and> t = LF # normalize_name name
           \<and> (\<exists>old. fs1 (manifest_path dir) = Some (old @ LF # normalize_name name)))"
proof -
  let ?n = "normalize_name name"
  have em: "(\<forall>u d. Fetch u d \<notin> set effs')
          \<and> (\<forall>p t. Append p t \<in> set effs' \<longrightarrow> p = manifest_path dir \<and> t = LF # ?n
                \<and> (\<exists>old. fs' (manifest_path dir) = Some (old @ LF # ?n)))"
    if "extract_and_mark w (''spawrious__'' @ ?n @ ''.tar.gz'') dir flag ?n fs0 = (e', effs', fs')"
    for e' effs' fs' fs0
    using extract_and_mark_cases [OF that]
    by (auto simp: manifest_path_def)
  from download_cases [OF assms] em show ?thesis
    by (elim disjE conjE exE) (simp_all, blast+)
qed


text \<open>
  Claim C1, evaluated where it fails. Downloading \<open>o2o_easy\<close> and then \<open>m2m_hard\<close> into a
  fresh directory leaves the manifest with the two lines \<open>o2o_easy\<close> and \<open>m2m\<close> (after an
  empty first line). A line of this manifest equals \<open>o2o_easy\<close>, yet the check of the
  download, which compares the name with the lines including their terminators, answers
  that the dataset is not extracted, and a third call for \<open>o2o_easy\<close> fetches, unpacks and
  records it again.
\<close>

theorem manifest_check_misses_terminated_line:
  "snd (snd run_easy_m2m) ''data/datasets.txt'' = Some (LF # ''o2o_easy'' @ LF # ''m2m'')
   \<and> readlines (LF # ''o2o_easy'' @ LF # ''m2m'') = [[LF], ''o2o_easy'' @ [LF], ''m2m'']
   \<and> spec_manifest_entries (LF # ''o2o_easy'' @ LF # ''m2m'') = [[], ''o2o_easy'', ''m2m'']
   \<and> spec_is_extracted ''o2o_easy'' (LF # ''o2o_easy'' @ LF # ''m2m'')
   \<and> \<not> already_extracted ''o2o_easy'' (LF # ''o2o_easy'' @ LF # ''m2m'')
   \<and> fst (snd run_easy_m2m_easy) =
       [Fetch ''https://www.dropbox.com/s/bonf1elisg2ohiq/spawrious__o2o_easy.tar.gz?dl=1''
          ''data/spawrious__o2o_easy.tar.gz'',
        Unpack ''data/spawrious__o2o_easy.tar.gz'' ''data'',
        Remove ''data/spawrious__o2o_easy.tar.gz'',
        Append ''data/datasets.txt'' (LF # ''o2o_easy'')]"
  by code_simp

text \<open>
  Claim C4. Calling the download twice in succession, the first call succeeding: the
  second call, whatever the network and the archives then do, raises nothing, performs no
  effect at all (no fetch, no extraction, no append) and leaves every file as the first
  call left it, so the manifest holds exactly what one successful call produces. The
  same holds for the public entry point.
\<close>

theorem download_twice:
  "(download_dataset_if_not_available w name dir flag fs = (None, effs, fs1) \<longrightarrow>
      download_dataset_if_not_available w' name dir flag fs1 = (None, [], fs1))
   \<and> (download_spawrious_dataset w name dir fs = (None, effs, fs1) \<longrightarrow>
      download_spawrious_dataset w' name dir fs1 = (None, [], fs1))"
proof -
  have inner: "download_dataset_if_not_available w' name dir flag' fs1 = (None, [], fs1)"
    if "download_dataset_if_not_available w name dir flag' fs = (None, effs, fs1)" for flag'
  proof -
    from download_ok_listed [OF that] obtain url c where
      "map_of url_dict (normalize_name name) = Some url"
      "fs1 (os_path_join dir ''datasets.txt'') = Some c"
      "already_extracted (normalize_name name) c" by blast
    then show ?thesis by (rule download_noop)
  qed
  have outer: "download_spawrious_dataset w' name dir fs1 = (None, [], fs1)"
    if "download_spawrious_dataset w name dir fs = (None, effs, fs1)"
  proof -
    from that have a: "py_lower name \<in> set allowed_names"
      by (auto simp: download_spawrious_dataset_def split: if_splits)
    with that have "download_dataset_if_not_available w name dir True fs = (None, effs, fs1)"
      by (simp add: download_spawrious_dataset_def)
    from inner [OF this] a show ?thesis by (simp add: download_spawrious_dataset_def)
  qed
  from inner outer show ?thesis by blast
qed

theorem download_twice_witness:
  "fst run_easy = None
   \<and> download_dataset_if_not_available offline_world ''o2o_easy'' ''data'' True (snd (snd run_easy))
       = (None, [], snd (snd run_easy))"
proof -
  have e: "fst run_easy = None" by code_simp
  then have "download_dataset_if_not_available demo_world ''o2o_easy'' ''data'' True Map.empty
             = (None, fst (snd run_easy), snd (snd run_easy))"
    by (simp add: run_easy_def prod_eq_iff)
  with download_twice [of demo_world "''o2o_easy''" "''data''" True Map.empty "fst (snd run_easy)"
      "snd (snd run_easy)" offline_world, THEN conjunct1]
  show ?thesis using e by simp
qed

text \<open>
  Claim C7. When a call ends in a failed extraction, the manifest is as it was before the
  call and the call appended nothing; the next call on the resulting files, in any world,
  starts by unpacking the same archive again. In every call, an append to the manifest is
  the last effect of a call that raised nothing, it writes the dataset's name to the
  manifest, and the unpacking of the archive comes before it.
\<close>

theorem failed_extraction_leaves_manifest:
  assumes "download_dataset_if_not_available w name dir flag fs = (e, effs, fs1)"
  shows "(e = Some ExtractError \<longrightarrow>
            fs1 (manifest_path dir) = fs (manifest_path dir)
          \<and> (\<forall>p t. Append p t \<notin> set effs)
          \<and> (\<forall>w'. \<exists>e2 effs2 fs2.
                download_dataset_if_not_available w' name dir flag fs1 =
                  (e2, Unpack (tar_path dir (normalize_name name))
                         (os_path_dirname (tar_path dir (normalize_name name))) # effs2, fs2)))
       \<and> (\<forall>p t. Append p t \<in> set effs \<longrightarrow>
            e = None \<and> p = manifest_path dir \<and> t = LF # normalize_name name
          \<and> (\<exists>pre. effs = pre @ [Append p t]
                \<and> Unpack (tar_path dir (normalize_name name))
                     (os_path_dirname (tar_path dir (normalize_name name))) \<in> set pre
                \<and> (\<forall>q u. Append q u \<notin> set pre)))"
proof (cases "map_of url_dict (normalize_name name)")
  case None
  from download_KeyError [OF None, of w dir flag fs] assms show ?thesis by simp
next
  case (Some url)
  let ?n = "normalize_name name"
  let ?T = "tar_path dir ?n"
  let ?listed = "\<exists>c. fs (manifest_path dir) = Some c \<and> already_extracted ?n c"
  have em: "(e' = Some ExtractError \<longrightarrow> fs' = fs0 \<and> fs0 ?T \<noteq> None \<and> (\<forall>p t. Append p t \<notin> set effs'))
          \<and> (\<forall>p t. Append p t \<in> set effs' \<longrightarrow>
                e' = None \<and> p = manifest_path dir \<and> t = LF # ?n
              \<and> (\<exists>pre. effs' = pre @ [Append p t] \<and> Unpack ?T (os_path_dirname ?T) \<in> set pre
                    \<and> (\<forall>q u. Append q u \<notin> set pre)))"
    if "extract_and_mark w (''spawrious__'' @ ?n @ ''.tar.gz'') dir flag ?n fs0 = (e', effs', fs')"
    for e' effs' fs' fs0
    using extract_and_mark_cases [OF that]
    by (auto simp: tar_path_def manifest_path_def)
  from download_cases [OF assms Some]
  consider (noop) "e = None" "effs = []" "fs1 = fs"
    | (present) "\<not> ?listed" "fs ?T \<noteq> None"
        "extract_and_mark w (''spawrious__'' @ ?n @ ''.tar.gz'') dir flag ?n fs = (e, effs, fs1)"
    | (neterr) "e = Some URLError" "effs = []"
    | (readerr) "e = Some ReadFailed" "effs = [Fetch url ?T]"
    | (fetched) body effs' where "\<not> ?listed" "fs ?T = None"
        "extract_and_mark w (''spawrious__'' @ ?n @ ''.tar.gz'') dir flag ?n (fs(?T \<mapsto> body)) = (e, effs', fs1)"
        "effs = Fetch url ?T # effs'"
    by blast
  then show ?thesis
  proof cases
    case noop
    then show ?thesis by simp
  next
    case present
    note facts = em [OF present(3)]
    have "\<forall>w'. \<exists>e2 effs2 fs2. download_dataset_if_not_available w' name dir flag fs1 =
            (e2, Unpack ?T (os_path_dirname ?T) # effs2, fs2)" if "e = Some ExtractError"
    proof -
      from that facts have "fs1 = fs" by simp
      with download_unpacks_present [OF Some present(2) present(1)] show ?thesis by simp
    qed
    with facts show ?thesis by auto
  next
    case neterr
    then show ?thesis by simp
  next
    case readerr
    then show ?thesis by simp
  next
    case fetched
    note facts = em [OF fetched(3)]
    have next_run: "\<forall>w'. \<exists>e2 effs2 fs2. download_dataset_if_not_available w' name dir flag fs1 =
            (e2, Unpack ?T (os_path_dirname ?T) # effs2, fs2)"
      and same: "fs1 (manifest_path dir) = fs (manifest_path dir)" if "e = Some ExtractError"
    proof -
      from that facts have fs1: "fs1 = fs(?T \<mapsto> body)" by simp
      then show same: "fs1 (manifest_path dir) = fs (manifest_path dir)"
        using manifest_path_neq_tar_path [of dir ?n] by simp
      have "fs1 ?T \<noteq> None" using fs1 by simp
      moreover have "\<not> (\<exists>c. fs1 (manifest_path dir) = Some c \<and> already_extracted ?n c)"
        using same fetched(1) by simp
      ultimately show "\<forall>w'. \<exists>e2 effs2 fs2. download_dataset_if_not_available w' name dir flag fs1 =
            (e2, Unpack ?T (os_path_dirname ?T) # effs2, fs2)"
        using download_unpacks_present [OF Some] by blast
    qed
    have app: "\<exists>pre. effs = pre @ [Append p t] \<and> Unpack ?T (os_path_dirname ?T) \<in> set pre
                 \<and> (\<forall>q u. Append q u \<notin> set pre)"
      if "effs' = pre' @ [Append p t]" "Unpack ?T (os_path_dirname ?T) \<in> set pre'"
         "\<forall>q u. Append q u \<notin> set pre'" for pre' p t
      using that fetched(4) by (intro exI [of _ "Fetch url ?T # pre'"]) simp
    show ?thesis
      using facts next_run same app fetched(4) by (auto 4 3)
  qed
qed

theorem failed_extraction_leaves_manifest_witness:
  "fst run_corrupt = Some ExtractError
   \<and> snd (snd run_corrupt) (manifest_path ''data'') = None
   \<and> (\<exists>e2 effs2 fs2.
         download_dataset_if_not_available demo_world ''o2o_easy'' ''data'' True (snd (snd run_corrupt))
           = (e2, Unpack ''data/spawrious__o2o_easy.tar.gz'' ''data'' # effs2, fs2))
   \<and> Append ''data/datasets.txt'' (LF # ''o2o_easy'') \<in> set (fst (snd run_easy))
   \<and> fst run_easy = None"
proof -
  have n: "normalize_name ''o2o_easy'' = ''o2o_easy''" by code_simp
  have T: "tar_path ''data'' ''o2o_easy'' = ''data/spawrious__o2o_easy.tar.gz''" by code_simp
  have D: "os_path_dirname ''data/spawrious__o2o_easy.tar.gz'' = ''data''" by code_simp
  have e: "fst run_corrupt = Some ExtractError" by code_simp
  have a: "Append ''data/datasets.txt'' (LF # ''o2o_easy'') \<in> set (fst (snd run_easy))" by code_simp
  have r1: "download_dataset_if_not_available corrupt_world ''o2o_easy'' ''data'' True Map.empty
            = (fst run_corrupt, fst (snd run_corrupt), snd (snd run_corrupt))"
    by (simp add: run_corrupt_def)
  have r2: "download_dataset_if_not_available demo_world ''o2o_easy'' ''data'' True Map.empty
            = (fst run_easy, fst (snd run_easy), snd (snd run_easy))"
    by (simp add: run_easy_def)
  note f1 = failed_extraction_leaves_manifest [OF r1, THEN conjunct1, THEN mp, OF e]
  have m: "snd (snd run_corrupt) (manifest_path ''data'') = None"
    using f1 [THEN conjunct1] by simp
  have u: "\<exists>e2 effs2 fs2.
         download_dataset_if_not_available demo_world ''o2o_easy'' ''data'' True (snd (snd run_corrupt))
           = (e2, Unpack ''data/spawrious__o2o_easy.tar.gz'' ''data'' # effs2, fs2)"
    using f1 [THEN conjunct2, THEN conjunct2, THEN spec, of demo_world] by (simp only: n T D)
  note f2 = failed_extraction_leaves_manifest [OF r2, THEN conjunct2, THEN spec, THEN spec, THEN mp, OF a]
  have s: "fst run_easy = None"
    by (rule f2 [THEN conjunct1])
  from e m u a s show ?thesis by (intro conjI)
qed

text \<open>
  Claim C8. A dataset name whose lowercased first underscore-separated component is
  \<open>m2m\<close> is handled exactly as the name \<open>m2m\<close>: whatever the call fetches is the m2m URL,
  written to \<open>spawrious__m2m.tar.gz\<close> in the data directory, and whatever it appends is
  the line \<open>m2m\<close> at the end of the manifest; and when neither the archive nor a manifest
  entry is there and the network and the archive cooperate, the call does fetch, unpack
  and record exactly that.
\<close>

theorem m2m_names_share_archive:
  assumes "hd (py_split (CHR ''_'') (py_lower name)) = ''m2m''"
  shows "download_dataset_if_not_available w name dir flag fs =
           download_dataset_if_not_available w ''m2m'' dir flag fs
       \<and> (\<forall>e effs fs1. download_dataset_if_not_available w name dir flag fs = (e, effs, fs1) \<longrightarrow>
             (\<forall>u d. Fetch u d \<in> set effs \<longrightarrow>
                u = m2m_url \<and> d = os_path_join dir ''spawrious__m2m.tar.gz'')
           \<and> (\<forall>p t. Append p t \<in> set effs \<longrightarrow>
                p = os_path_join dir ''datasets.txt'' \<and> t = LF # ''m2m''
              \<and> (\<exists>old. fs1 (os_path_join dir ''datasets.txt'') = Some (old @ LF # ''m2m''))))
       \<and> (fs (os_path_join dir ''spawrious__m2m.tar.gz'') = None
           \<and> \<not> (\<exists>c. fs (os_path_join dir ''datasets.txt'') = Some c \<and> already_extracted ''m2m'' c)
           \<and> urlopen w m2m_url = Some response \<and> copy_body response = (body, True) \<and> untar w body
          \<longrightarrow> download_dataset_if_not_available w name dir flag fs =
                (None,
                 Fetch m2m_url (os_path_join dir ''spawrious__m2m.tar.gz'')
                 # Unpack (os_path_join dir ''spawrious__m2m.tar.gz'')
                     (os_path_dirname (os_path_join dir ''spawrious__m2m.tar.gz''))
                 # (if flag then [Remove (os_path_join dir ''spawrious__m2m.tar.gz'')] else [])
                 @ [Append (os_path_join dir ''datasets.txt'') (LF # ''m2m'')],
                 (if flag then fs else fs(os_path_join dir ''spawrious__m2m.tar.gz'' \<mapsto> body))
                   (os_path_join dir ''datasets.txt'' \<mapsto>
                      (case fs (os_path_join dir ''datasets.txt'') of None \<Rightarrow> [] | Some c \<Rightarrow> c)
                      @ LF # ''m2m'')))"
proof -
  have n: "normalize_name name = ''m2m''"
    using assms by (simp add: normalize_name_def)
  have url: "map_of url_dict (normalize_name name) = Some m2m_url"
    by (simp add: n url_dict_m2m)
  have T: "tar_path dir ''m2m'' = os_path_join dir ''spawrious__m2m.tar.gz''"
    by (simp add: tar_path_def)
  have 1: "download_dataset_if_not_available w name dir flag fs =
           download_dataset_if_not_available w ''m2m'' dir flag fs"
    by (rule download_normalized) (simp add: n normalize_name_m2m)
  have 2: "(\<forall>u d. Fetch u d \<in> set effs \<longrightarrow>
                u = m2m_url \<and> d = os_path_join dir ''spawrious__m2m.tar.gz'')
           \<and> (\<forall>p t. Append p t \<in> set effs \<longrightarrow>
                p = os_path_join dir ''datasets.txt'' \<and> t = LF # ''m2m''
              \<and> (\<exists>old. fs1 (os_path_join dir ''datasets.txt'') = Some (old @ LF # ''m2m'')))"
    if "download_dataset_if_not_available w name dir flag fs = (e, effs, fs1)" for e effs fs1
    using download_effects [OF that url] by (simp add: n T manifest_path_def, blast)
  have 3: "download_dataset_if_not_available w name dir flag fs =
                (None,
                 Fetch m2m_url (os_path_join dir ''spawrious__m2m.tar.gz'')
                 # Unpack (os_path_join dir ''spawrious__m2m.tar.gz'')
                     (os_path_dirname (os_path_join dir ''spawrious__m2m.tar.gz''))
                 # (if flag then [Remove (os_path_join dir ''spawrious__m2m.tar.gz'')] else [])
                 @ [Append (os_path_join dir ''datasets.txt'') (LF # ''m2m'')],
                 (if flag then fs else fs(os_path_join dir ''spawrious__m2m.tar.gz'' \<mapsto> body))
                   (os_path_join dir ''datasets.txt'' \<mapsto>
                      (case fs (os_path_join dir ''datasets.txt'') of None \<Rightarrow> [] | Some c \<Rightarrow> c)
                      @ LF # ''m2m''))"
    if "fs (os_path_join dir ''spawrious__m2m.tar.gz'') = None"
       "\<not> (\<exists>c. fs (os_path_join dir ''datasets.txt'') = Some c \<and> already_extracted ''m2m'' c)"
       "urlopen w m2m_url = Some response" "copy_body response = (body, True)" "untar w body"
    using download_fresh [of name m2m_url fs dir w response body flag] url that
    by (simp add: T n manifest_path_def)
  have all2: "\<forall>e effs fs1. download_dataset_if_not_available w name dir flag fs = (e, effs, fs1) \<longrightarrow>
             (\<forall>u d. Fetch u d \<in> set effs \<longrightarrow>
                u = m2m_url \<and> d = os_path_join dir ''spawrious__m2m.tar.gz'')
           \<and> (\<forall>p t. Append p t \<in> set effs \<longrightarrow>
                p = os_path_join dir ''datasets.txt'' \<and> t = LF # ''m2m''
              \<and> (\<exists>old. fs1 (os_path_join dir ''datasets.txt'') = Some (old @ LF # ''m2m'')))"
    by (intro allI impI) (erule 2)
  show ?thesis
    apply (rule conjI [OF 1])
    apply (rule conjI [OF all2])
    apply (intro impI)
    apply (elim conjE)
    apply (rule 3)
        apply assumption+
    done
qed

theorem m2m_names_share_archive_witness:
  "hd (py_split (CHR ''_'') (py_lower ''M2M_hard'')) = ''m2m''
   \<and> fst (snd (download_dataset_if_not_available demo_world ''M2M_hard'' ''data'' True Map.empty)) =
       [Fetch m2m_url ''data/spawrious__m2m.tar.gz'',
        Unpack ''data/spawrious__m2m.tar.gz'' ''data'',
        Remove ''data/spawrious__m2m.tar.gz'',
        Append ''data/datasets.txt'' (LF # ''m2m'')]"
proof -
  have h: "hd (py_split (CHR ''_'') (py_lower ''M2M_hard'')) = ''m2m''"
    by code_simp
  have "urlopen demo_world m2m_url = Some [Buffer ''tar'', Buffer []]" "untar demo_world ''tar''"
    by (simp_all add: demo_world_def)
  moreover have "copy_body [Buffer ''tar'', Buffer []] = (''tar'', True)"
    by simp
  moreover have "os_path_join ''data'' ''spawrious__m2m.tar.gz'' = ''data/spawrious__m2m.tar.gz''"
    by code_simp
  moreover have "os_path_join ''data'' ''datasets.txt'' = ''data/datasets.txt''"
    by code_simp
  moreover have "os_path_dirname ''data/spawrious__m2m.tar.gz'' = ''data''"
    by code_simp
  ultimately have "download_dataset_if_not_available demo_world ''M2M_hard'' ''data'' True Map.empty =
      (None,
       [Fetch m2m_url ''data/spawrious__m2m.tar.gz'',
        Unpack ''data/spawrious__m2m.tar.gz'' ''data'',
        Remove ''data/spawrious__m2m.tar.gz'',
        Append ''data/datasets.txt'' (LF # ''m2m'')],
       [''data/datasets.txt'' \<mapsto> LF # ''m2m''])"
    using m2m_names_share_archive [OF h, of demo_world "''data''" True Map.empty "[Buffer ''tar'', Buffer []]" "''tar''", THEN conjunct2, THEN conjunct2]
    by simp
  with h show ?thesis by simp
qed


section \<open>The scan of a placement\<close>

lemma limit_scan_take:
  "count_limit < limit \<Longrightarrow>
   limit_scan smp limit c is count_limit =
     take (nat (limit - count_limit)) (filter (\<lambda>i. snd (smp ! i) = c) is)"
proof (induction "is" arbitrary: count_limit)
  case Nil
  then show ?case by simp
next
  case (Cons i rest)
  show ?case
  proof (cases "snd (smp ! i) = c")
    case hit: True
    show ?thesis
    proof (cases "limit \<le> count_limit + 1")
      case True
      with Cons.prems have "nat (limit - count_limit) = Suc 0" by simp
      with hit True show ?thesis by simp
    next
      case False
      then have "nat (limit - count_limit) = Suc (nat (limit - (count_limit + 1)))" by simp
      with hit False Cons.IH [of "count_limit + 1"] show ?thesis by simp
    qed
  next
    case False
    with Cons show ?thesis by simp
  qed
qed

lemma limit_scan_nonpositive:
  "limit \<le> count_limit \<Longrightarrow>
   limit_scan smp limit c (i # rest) count_limit = (if snd (smp ! i) = c then [i] else [])"
  by simp

lemma map_nth_filter_upt:
  "map (\<lambda>i. xs ! i) (filter (\<lambda>i. P (xs ! i)) [0..<length xs]) = filter P xs"
proof (induction xs rule: rev_induct)
  case Nil
  then show ?case by simp
next
  case (snoc x xs)
  have "map (\<lambda>i. (xs @ [x]) ! i) (filter (\<lambda>i. P ((xs @ [x]) ! i)) [0..<length xs])
        = map (\<lambda>i. xs ! i) (filter (\<lambda>i. P (xs ! i)) [0..<length xs])"
    by (intro map_cong filter_cong [THEN arg_cong]) (auto simp: nth_append)
  moreover have "filter (\<lambda>i. P ((xs @ [x]) ! i)) [0..<length xs]
        = filter (\<lambda>i. P (xs ! i)) [0..<length xs]"
    by (intro filter_cong) (auto simp: nth_append)
  ultimately show ?case using snoc by (simp add: nth_append)
qed

lemma map_nth_take: "map f (take n xs) = take n (map f xs)"
  by (simp add: take_map)

lemma train_keep_positive:
  assumes "0 < limit"
  shows "map (\<lambda>i. smp ! i) (train_keep smp limit classes_idx) = spec_capped smp limit classes_idx"
proof -
  have "map (\<lambda>i. smp ! i) (limit_scan smp limit c [0..<length smp] 0)
        = take (nat limit) (filter (\<lambda>sample. snd sample = c) smp)" for c
  proof -
    have "map (\<lambda>i. smp ! i) (limit_scan smp limit c [0..<length smp] 0)
          = take (nat limit) (map (\<lambda>i. smp ! i) (filter (\<lambda>i. snd (smp ! i) = c) [0..<length smp]))"
      using limit_scan_take [of 0 limit smp c "[0..<length smp]"] assms
      by (simp add: take_map)
    also have "\<dots> = take (nat limit) (filter (\<lambda>sample. snd sample = c) smp)"
      by (simp only: map_nth_filter_upt [of smp "\<lambda>sample. snd sample = c"])
    finally show ?thesis .
  qed
  then show ?thesis
    by (simp add: train_keep_def spec_capped_def map_concat comp_def)
qed

lemma length_limit_scan:
  "0 < limit \<Longrightarrow> length (limit_scan smp limit c is 0) \<le> nat limit"
  by (simp add: limit_scan_take)

lemma limit_scan_labels:
  "i \<in> set (limit_scan smp limit c is count_limit) \<Longrightarrow> snd (smp ! i) = c \<and> i \<in> set is"
  by (induction "is" arbitrary: count_limit) (auto split: if_splits)

lemma class_indices_set:
  "class_indices c2i classes = Inr classes_idx \<Longrightarrow>
   set classes_idx = {i. \<exists>c \<in> set classes. map_of c2i c = Some i}"
  by (induction classes arbitrary: classes_idx) (auto split: option.splits sum.splits)

lemma class_indices_length:
  "class_indices c2i classes = Inr classes_idx \<Longrightarrow> length classes_idx = length classes"
  by (induction classes arbitrary: classes_idx) (auto split: option.splits sum.splits)

lemma items_test_keep:
  assumes "class_indices c2i classes = Inr classes_idx"
  shows "map (\<lambda>i. smp ! i) (test_keep smp classes_idx)
         = filter (\<lambda>sample. \<exists>c \<in> set classes. map_of c2i c = Some (snd sample)) smp"
proof -
  have "map (\<lambda>i. smp ! i) (test_keep smp classes_idx)
        = filter (\<lambda>sample. snd sample \<in> set classes_idx) smp"
    using map_nth_filter_upt [of smp "\<lambda>sample. snd sample \<in> set classes_idx"]
    by (simp add: test_keep_def)
  also have "\<dots> = filter (\<lambda>sample. \<exists>c \<in> set classes. map_of c2i c = Some (snd sample)) smp"
    by (rule filter_cong) (auto simp: class_indices_set [OF assms])
  finally show ?thesis .
qed


section \<open>Addresses and the class-group matrix\<close>

lemma offset_0 [simp]: "offset d 0 = 0"
  by (simp add: offset_def)

lemma offset_Cons_Suc [simp]: "offset (entry # d) (Suc k) = length (snd entry) + offset d k"
  by (simp add: offset_def)

lemma offset_Suc: "k < length d \<Longrightarrow> offset d (Suc k) = offset d k + length (snd (d ! k))"
  by (simp add: offset_def take_Suc_conv_app_nth)

lemma offset_mono: "k \<le> k' \<Longrightarrow> k' \<le> length d \<Longrightarrow> offset d k \<le> offset d k'"
proof (induction k' arbitrary: k)
  case 0
  then show ?case by simp
next
  case (Suc k')
  show ?case
  proof (cases "k = Suc k'")
    case True
    then show ?thesis by simp
  next
    case False
    with Suc.prems have "k \<le> k'" "k' \<le> length d" "k' < length d" by simp_all
    with Suc.IH [of k] offset_Suc [of k' d] show ?thesis by simp
  qed
qed

lemma offset_less:
  assumes "k < length d" "g < length (snd (d ! k))"
  shows "offset d k + g < offset d (length d)"
proof -
  have "offset d k + g < offset d (Suc k)"
    using assms by (simp add: offset_Suc)
  also have "\<dots> \<le> offset d (length d)"
    using assms by (intro offset_mono) simp_all
  finally show ?thesis .
qed

lemma offset_inj:
  assumes "k < length d" "g < length (snd (d ! k))" "k' < length d" "g' < length (snd (d ! k'))"
    and eq: "offset d k + g = offset d k' + g'"
  shows "k = k' \<and> g = g'"
proof -
  have less: False if "a < b" "a < length d" "b < length d" "h < length (snd (d ! a))"
    "offset d a + h = offset d b + h'" for a b h h'
  proof -
    have "offset d a + h < offset d (Suc a)" using that by (simp add: offset_Suc)
    also have "\<dots> \<le> offset d b" using that by (intro offset_mono) simp_all
    finally show False using that by simp
  qed
  have "k = k'"
  proof (rule ccontr)
    assume "k \<noteq> k'"
    then consider "k < k'" | "k' < k" by linarith
    then show False
    proof cases
      case 1
      from less [OF 1 assms(1) assms(3) assms(2) eq] show False .
    next
      case 2
      from less [OF 2 assms(3) assms(1) assms(4) eq [symmetric]] show False .
    qed
  qed
  with eq show ?thesis by simp
qed

lemma placements_spec:
  assumes body: "\<And>ind p st sub st1. body ind p st = Inr (sub, st1) \<Longrightarrow>
            \<exists>idx f. sub = Subset (ImageFolder (length st)) idx \<and> st1 = st @ [f] \<and> Q ind p f idx"
    and run: "placements body ind ps st = Inr (subs, st')"
  shows "\<exists>new. st' = st @ new \<and> length new = length ps \<and> length subs = length ps
           \<and> (\<forall>j<length ps. \<exists>idx. subs ! j = Subset (ImageFolder (length st + j)) idx
                  \<and> Q (ind + j) (ps ! j) (new ! j) idx)"
  using run
proof (induction ps arbitrary: ind st subs st')
  case Nil
  then show ?case by simp
next
  case (Cons p ps)
  from Cons.prems obtain sub st1 subs1 where
    b: "body ind p st = Inr (sub, st1)"
    and r: "placements body (Suc ind) ps st1 = Inr (subs1, st')"
    and s: "subs = sub # subs1"
    by (auto split: sum.splits)
  from body [OF b] obtain idx0 f where
    sub: "sub = Subset (ImageFolder (length st)) idx0" and st1: "st1 = st @ [f]" and q: "Q ind p f idx0"
    by blast
  from Cons.IH [OF r] obtain new1 where
    new1: "st' = st1 @ new1" "length new1 = length ps" "length subs1 = length ps"
    and rest: "\<forall>j<length ps. \<exists>idx. subs1 ! j = Subset (ImageFolder (length st1 + j)) idx
                  \<and> Q (Suc ind + j) (ps ! j) (new1 ! j) idx"
    by blast
  have "\<exists>idx. subs ! j = Subset (ImageFolder (length st + j)) idx
          \<and> Q (ind + j) ((p # ps) ! j) ((f # new1) ! j) idx" if "j < length (p # ps)" for j
  proof (cases j)
    case 0
    with s sub q show ?thesis by simp
  next
    case (Suc j')
    with that have "j' < length ps" by simp
    with rest obtain idx where "subs1 ! j' = Subset (ImageFolder (length st1 + j')) idx"
      "Q (Suc ind + j') (ps ! j') (new1 ! j') idx" by blast
    with Suc s st1 show ?thesis by simp
  qed
  moreover have "st' = st @ (f # new1)" using new1 st1 by simp
  moreover have "length (f # new1) = length (p # ps)" "length subs = length (p # ps)"
    using new1 s by simp_all
  ultimately show ?case by blast
qed

lemma class_groups_spec:
  assumes body: "\<And>classes ind p st sub st1. body classes ind p st = Inr (sub, st1) \<Longrightarrow>
            \<exists>idx f. sub = Subset (ImageFolder (length st)) idx \<and> st1 = st @ [f] \<and> Q classes ind p f idx"
    and run: "class_groups body d st = Inr (m, st')"
  shows "\<exists>new. st' = st @ new \<and> length new = offset d (length d) \<and> length m = length d
           \<and> (\<forall>k<length d. length (m ! k) = length (snd (d ! k))
                \<and> (\<forall>j<length (snd (d ! k)). \<exists>idx.
                       m ! k ! j = Subset (ImageFolder (length st + offset d k + j)) idx
                     \<and> Q (fst (d ! k)) j (snd (d ! k) ! j) (new ! (offset d k + j)) idx))"
  using run
proof (induction d arbitrary: st m st')
  case Nil
  then show ?case by simp
next
  case (Cons entry d)
  obtain classes comb_list where entry: "entry = (classes, comb_list)" by (cases entry)
  from Cons.prems entry obtain row st1 rows where
    p: "placements (body classes) 0 comb_list st = Inr (row, st1)"
    and r: "class_groups body d st1 = Inr (rows, st')"
    and m: "m = row # rows"
    by (auto split: sum.splits)
  from placements_spec [where Q = "Q classes", OF body p] obtain new1 where
    new1: "st1 = st @ new1" "length new1 = length comb_list" "length row = length comb_list"
    and first: "\<forall>j<length comb_list. \<exists>idx. row ! j = Subset (ImageFolder (length st + j)) idx
                  \<and> Q classes (0 + j) (comb_list ! j) (new1 ! j) idx"
    by blast
  from Cons.IH [OF r] obtain new2 where
    new2: "st' = st1 @ new2" "length new2 = offset d (length d)" "length rows = length d"
    and rest: "\<forall>k<length d. length (rows ! k) = length (snd (d ! k))
                \<and> (\<forall>j<length (snd (d ! k)). \<exists>idx.
                       rows ! k ! j = Subset (ImageFolder (length st1 + offset d k + j)) idx
                     \<and> Q (fst (d ! k)) j (snd (d ! k) ! j) (new2 ! (offset d k + j)) idx)"
    by blast
  let ?new = "new1 @ new2"
  have "length (m ! k) = length (snd ((entry # d) ! k))
        \<and> (\<forall>j<length (snd ((entry # d) ! k)). \<exists>idx.
               m ! k ! j = Subset (ImageFolder (length st + offset (entry # d) k + j)) idx
             \<and> Q (fst ((entry # d) ! k)) j (snd ((entry # d) ! k) ! j)
                 (?new ! (offset (entry # d) k + j)) idx)"
    if "k < length (entry # d)" for k
  proof (cases k)
    case 0
    with first new1 m entry show ?thesis by (simp add: nth_append)
  next
    case (Suc k')
    with that have k': "k' < length d" by simp
    from rest k' have len: "length (rows ! k') = length (snd (d ! k'))"
      and each: "\<forall>j<length (snd (d ! k')). \<exists>idx.
                       rows ! k' ! j = Subset (ImageFolder (length st1 + offset d k' + j)) idx
                     \<and> Q (fst (d ! k')) j (snd (d ! k') ! j) (new2 ! (offset d k' + j)) idx"
      by blast+
    have "\<exists>idx. m ! k ! j = Subset (ImageFolder (length st + offset (entry # d) k + j)) idx
             \<and> Q (fst ((entry # d) ! k)) j (snd ((entry # d) ! k) ! j)
                 (?new ! (offset (entry # d) k + j)) idx"
      if "j < length (snd ((entry # d) ! k))" for j
    proof -
      from that Suc have "j < length (snd (d ! k'))" by simp
      with each obtain idx where
        "rows ! k' ! j = Subset (ImageFolder (length st1 + offset d k' + j)) idx"
        "Q (fst (d ! k')) j (snd (d ! k') ! j) (new2 ! (offset d k' + j)) idx" by blast
      with Suc m new1 entry show ?thesis
        by (simp add: nth_append add.assoc)
    qed
    with len Suc m show ?thesis by simp
  qed
  moreover have "st' = st @ ?new" using new1 new2 by simp
  moreover have "length ?new = offset (entry # d) (length (entry # d))"
    using new1 new2 entry by simp
  moreover have "length m = length (entry # d)" using m new2 by simp
  ultimately show ?case by blast
qed

lemma joint_groups_spec:
  "joint_groups m gs = Inr joints \<Longrightarrow>
   length joints = length gs
   \<and> (\<forall>n<length gs. (\<forall>row \<in> set m. gs ! n < length row)
          \<and> joints ! n = ConcatDataset (map (\<lambda>row. row ! (gs ! n)) m))"
proof (induction gs arbitrary: joints)
  case Nil
  then show ?case by simp
next
  case (Cons g gs)
  from Cons.prems obtain js where
    ok: "\<forall>row \<in> set m. g < length row" and r: "joint_groups m gs = Inr js"
    and j: "joints = ConcatDataset (map (\<lambda>row. row ! g) m) # js"
    by (auto split: if_splits sum.splits simp: not_le)
  from Cons.IH [OF r] have ih: "length js = length gs"
    "\<forall>n<length gs. (\<forall>row \<in> set m. gs ! n < length row)
          \<and> js ! n = ConcatDataset (map (\<lambda>row. row ! (gs ! n)) m)" by blast+
  have "(\<forall>row \<in> set m. (g # gs) ! n < length row)
          \<and> joints ! n = ConcatDataset (map (\<lambda>row. row ! ((g # gs) ! n)) m)"
    if "n < length (g # gs)" for n
    using that ok ih j by (cases n) auto
  with ih j show ?case by simp
qed

lemma joint_datasets_spec:
  assumes "joint_datasets m = Inr joints"
  shows "m \<noteq> [] \<and> length joints = length (hd m)
         \<and> (\<forall>g<length (hd m). (\<forall>row \<in> set m. g < length row)
               \<and> joints ! g = ConcatDataset (map (\<lambda>row. row ! g) m))"
proof -
  from assms obtain first rest where m: "m = first # rest"
    and j: "joint_groups m [0..<length first] = Inr joints"
    by (auto simp: joint_datasets_def split: list.splits)
  from joint_groups_spec [OF j] m show ?thesis by simp
qed

lemma train_subset_allocates:
  assumes "train_subset disk root_dir t type1 classes ind placement st = Inr (sub, st1)"
  shows "\<exists>idx f. sub = Subset (ImageFolder (length st)) idx \<and> st1 = st @ [f]
           \<and> train_placement disk root_dir t type1 classes ind placement f idx"
  using assms
  by (auto simp: train_subset_def new_image_folder_def train_placement_def
           split: option.splits sum.splits)

lemma test_subset_allocates:
  assumes "test_subset disk root_dir Plain type1 classes ind location st = Inr (sub, st1)"
  shows "\<exists>idx f. sub = Subset (ImageFolder (length st)) idx \<and> st1 = st @ [f]
           \<and> test_placement disk root_dir type1 classes ind location f idx"
  using assms
  by (auto simp: test_subset_def new_image_folder_def test_placement_def
           split: option.splits sum.splits)

lemma dict_side:
  assumes body: "\<And>classes ind p st sub st1. body classes ind p st = Inr (sub, st1) \<Longrightarrow>
            \<exists>idx f. sub = Subset (ImageFolder (length st)) idx \<and> st1 = st @ [f] \<and> Q classes ind p f idx"
    and run: "class_groups body d st = Inr (m, st1)"
    and joint: "joint_datasets m = Inr joints"
  shows "d \<noteq> [] \<and> length joints = length (snd (hd d))
       \<and> (\<exists>new. st1 = st @ new \<and> length new = offset d (length d))
       \<and> (\<forall>g<length (snd (hd d)). \<exists>subs.
              joints ! g = ConcatDataset subs \<and> length subs = length d
            \<and> (\<forall>k<length d. g < length (snd (d ! k))
                  \<and> (\<exists>idx. subs ! k = Subset (ImageFolder (length st + offset d k + g)) idx
                        \<and> Q (fst (d ! k)) g (snd (d ! k) ! g) (st1 ! (length st + offset d k + g)) idx)))"
proof -
  from class_groups_spec [where Q = Q, OF body run] obtain new where
    new: "st1 = st @ new" "length new = offset d (length d)" "length m = length d"
    and rows: "\<forall>k<length d. length (m ! k) = length (snd (d ! k))
                \<and> (\<forall>j<length (snd (d ! k)). \<exists>idx.
                       m ! k ! j = Subset (ImageFolder (length st + offset d k + j)) idx
                     \<and> Q (fst (d ! k)) j (snd (d ! k) ! j) (new ! (offset d k + j)) idx)"
    by blast
  from joint_datasets_spec [OF joint] have m: "m \<noteq> []"
    and len: "length joints = length (hd m)"
    and cols: "\<forall>g<length (hd m). (\<forall>row \<in> set m. g < length row)
               \<and> joints ! g = ConcatDataset (map (\<lambda>row. row ! g) m)"
    by blast+
  from m new have d: "d \<noteq> []" by auto
  with m rows have hd: "length (hd m) = length (snd (hd d))"
    by (simp add: hd_conv_nth)
  have "\<exists>subs. joints ! g = ConcatDataset subs \<and> length subs = length d
            \<and> (\<forall>k<length d. g < length (snd (d ! k))
                  \<and> (\<exists>idx. subs ! k = Subset (ImageFolder (length st + offset d k + g)) idx
                        \<and> Q (fst (d ! k)) g (snd (d ! k) ! g) (st1 ! (length st + offset d k + g)) idx))"
    if g: "g < length (snd (hd d))" for g
  proof -
    from cols g hd have all: "\<forall>row \<in> set m. g < length row"
      and j: "joints ! g = ConcatDataset (map (\<lambda>row. row ! g) m)" by simp_all
    have "g < length (snd (d ! k))
          \<and> (\<exists>idx. map (\<lambda>row. row ! g) m ! k = Subset (ImageFolder (length st + offset d k + g)) idx
                \<and> Q (fst (d ! k)) g (snd (d ! k) ! g) (st1 ! (length st + offset d k + g)) idx)"
      if k: "k < length d" for k
    proof -
      from k new have "m ! k \<in> set m" by simp
      with all have "g < length (m ! k)" by blast
      with rows k have gk: "g < length (snd (d ! k))" by simp
      with rows k obtain idx where
        "m ! k ! g = Subset (ImageFolder (length st + offset d k + g)) idx"
        "Q (fst (d ! k)) g (snd (d ! k) ! g) (new ! (offset d k + g)) idx" by blast
      moreover have "st1 ! (length st + offset d k + g) = new ! (offset d k + g)"
        using new by (simp add: nth_append add.assoc)
      ultimately show ?thesis using gk k new by simp
    qed
    with j new show ?thesis by simp
  qed
  then have groups: "\<forall>g<length (snd (hd d)). \<exists>subs.
              joints ! g = ConcatDataset subs \<and> length subs = length d
            \<and> (\<forall>k<length d. g < length (snd (d ! k))
                  \<and> (\<exists>idx. subs ! k = Subset (ImageFolder (length st + offset d k + g)) idx
                        \<and> Q (fst (d ! k)) g (snd (d ! k) ! g) (st1 ! (length st + offset d k + g)) idx))"
    by (intro allI impI)
  have store: "\<exists>new. st1 = st @ new \<and> length new = offset d (length d)"
    using new by (intro exI [of _ new]) simp
  from len hd have "length joints = length (snd (hd d))" by simp
  with d store groups show ?thesis by (intro conjI)
qed

lemma init_structure:
  assumes run: "SpawriousBenchmark_init disk (Dict dtr) (Dict dte) root_dir augment type1 st
                = Inr (record, st')"
  shows "dtr \<noteq> [] \<and> dte \<noteq> [] \<and> snd (hd dte) \<noteq> []
    \<and> (\<exists>new. st' = st @ new \<and> length new = offset dtr (length dtr) + offset dte (length dte))
    \<and> (\<exists>tests trains. record = ConcatDataset tests # trains
         \<and> length trains = length (snd (hd dtr)) \<and> length tests = length (snd (hd dte))
         \<and> (\<forall>g<length (snd (hd dtr)). \<exists>subs.
                trains ! g = ConcatDataset subs \<and> length subs = length dtr
              \<and> (\<forall>k<length dtr. g < length (snd (dtr ! k))
                    \<and> (\<exists>idx. subs ! k = Subset (ImageFolder (length st + offset dtr k + g)) idx
                          \<and> train_placement disk root_dir (if augment then Augmenting else Plain)
                              type1 (fst (dtr ! k)) g (snd (dtr ! k) ! g)
                              (st' ! (length st + offset dtr k + g)) idx)))
         \<and> (\<forall>g<length (snd (hd dte)). \<exists>subs.
                tests ! g = ConcatDataset subs \<and> length subs = length dte
              \<and> (\<forall>k<length dte. g < length (snd (dte ! k))
                    \<and> (\<exists>idx. subs ! k =
                            Subset (ImageFolder (length st + offset dtr (length dtr) + offset dte k + g)) idx
                          \<and> test_placement disk root_dir type1 (fst (dte ! k)) g (snd (dte ! k) ! g)
                              (st' ! (length st + offset dtr (length dtr) + offset dte k + g)) idx))))"
proof -
  let ?t = "if augment then Augmenting else Plain"
  from run obtain trains st1 tests where
    tr: "train_data_list disk (Dict dtr) root_dir ?t type1 st = Inr (trains, st1)"
    and te: "test_data_list disk (Dict dte) root_dir type1 st1 = Inr (tests, st')"
    and ne: "tests \<noteq> []" and rec: "record = ConcatDataset tests # trains"
    by (auto simp: SpawriousBenchmark_init_def split: sum.splits if_splits)
  from tr obtain m1 where
    g1: "class_groups (train_subset disk root_dir ?t type1) dtr st = Inr (m1, st1)"
    and j1: "joint_datasets m1 = Inr trains"
    by (auto simp: train_data_list_def split: sum.splits)
  from te obtain m2 where
    g2: "class_groups (test_subset disk root_dir Plain type1) dte st1 = Inr (m2, st')"
    and j2: "joint_datasets m2 = Inr tests"
    by (auto simp: test_data_list_def split: sum.splits)
  note s1 = dict_side [where Q = "train_placement disk root_dir ?t type1", OF train_subset_allocates g1 j1]
  note s2 = dict_side [where Q = "test_placement disk root_dir type1", OF test_subset_allocates g2 j2]
  from s1 obtain new1 where dtr: "dtr \<noteq> []" and ltr: "length trains = length (snd (hd dtr))"
    and new1: "st1 = st @ new1" "length new1 = offset dtr (length dtr)"
    and grp1: "\<forall>g<length (snd (hd dtr)). \<exists>subs.
              trains ! g = ConcatDataset subs \<and> length subs = length dtr
            \<and> (\<forall>k<length dtr. g < length (snd (dtr ! k))
                  \<and> (\<exists>idx. subs ! k = Subset (ImageFolder (length st + offset dtr k + g)) idx
                        \<and> train_placement disk root_dir ?t type1 (fst (dtr ! k)) g (snd (dtr ! k) ! g)
                            (st1 ! (length st + offset dtr k + g)) idx))"
    by blast
  from s2 obtain new2 where dte: "dte \<noteq> []" and lte: "length tests = length (snd (hd dte))"
    and new2: "st' = st1 @ new2" "length new2 = offset dte (length dte)"
    and grp2: "\<forall>g<length (snd (hd dte)). \<exists>subs.
              tests ! g = ConcatDataset subs \<and> length subs = length dte
            \<and> (\<forall>k<length dte. g < length (snd (dte ! k))
                  \<and> (\<exists>idx. subs ! k = Subset (ImageFolder (length st1 + offset dte k + g)) idx
                        \<and> test_placement disk root_dir type1 (fst (dte ! k)) g (snd (dte ! k) ! g)
                            (st' ! (length st1 + offset dte k + g)) idx))"
    by blast
  have len1: "length st1 = length st + offset dtr (length dtr)" using new1 by simp
  have keep: "st' ! (length st + offset dtr k + g) = st1 ! (length st + offset dtr k + g)"
    if "k < length dtr" "g < length (snd (dtr ! k))" for k g
    using offset_less [OF that] new2 len1 by (simp add: nth_append)
  have train_part: "\<forall>g<length (snd (hd dtr)). \<exists>subs.
                trains ! g = ConcatDataset subs \<and> length subs = length dtr
              \<and> (\<forall>k<length dtr. g < length (snd (dtr ! k))
                    \<and> (\<exists>idx. subs ! k = Subset (ImageFolder (length st + offset dtr k + g)) idx
                          \<and> train_placement disk root_dir ?t type1 (fst (dtr ! k)) g (snd (dtr ! k) ! g)
                              (st' ! (length st + offset dtr k + g)) idx))"
  proof (intro allI impI)
    fix g assume "g < length (snd (hd dtr))"
    with grp1 obtain subs where subs: "trains ! g = ConcatDataset subs" "length subs = length dtr"
      and each: "\<forall>k<length dtr. g < length (snd (dtr ! k))
                  \<and> (\<exists>idx. subs ! k = Subset (ImageFolder (length st + offset dtr k + g)) idx
                        \<and> train_placement disk root_dir ?t type1 (fst (dtr ! k)) g (snd (dtr ! k) ! g)
                            (st1 ! (length st + offset dtr k + g)) idx)"
      by blast
    have "\<forall>k<length dtr. g < length (snd (dtr ! k))
                  \<and> (\<exists>idx. subs ! k = Subset (ImageFolder (length st + offset dtr k + g)) idx
                        \<and> train_placement disk root_dir ?t type1 (fst (dtr ! k)) g (snd (dtr ! k) ! g)
                            (st' ! (length st + offset dtr k + g)) idx)"
      using each keep by auto
    with subs show "\<exists>subs. trains ! g = ConcatDataset subs \<and> length subs = length dtr
              \<and> (\<forall>k<length dtr. g < length (snd (dtr ! k))
                    \<and> (\<exists>idx. subs ! k = Subset (ImageFolder (length st + offset dtr k + g)) idx
                          \<and> train_placement disk root_dir ?t type1 (fst (dtr ! k)) g (snd (dtr ! k) ! g)
                              (st' ! (length st + offset dtr k + g)) idx))"
      by blast
  qed
  have test_part: "\<forall>g<length (snd (hd dte)). \<exists>subs.
                tests ! g = ConcatDataset subs \<and> length subs = length dte
              \<and> (\<forall>k<length dte. g < length (snd (dte ! k))
                    \<and> (\<exists>idx. subs ! k =
                            Subset (ImageFolder (length st + offset dtr (length dtr) + offset dte k + g)) idx
                          \<and> test_placement disk root_dir type1 (fst (dte ! k)) g (snd (dte ! k) ! g)
                              (st' ! (length st + offset dtr (length dtr) + offset dte k + g)) idx))"
    using grp2 unfolding len1 .
  have store: "\<exists>new. st' = st @ new \<and> length new = offset dtr (length dtr) + offset dte (length dte)"
    using new1 new2 by (intro exI [of _ "new1 @ new2"]) simp
  have shape: "\<exists>tests trains. record = ConcatDataset tests # trains
         \<and> length trains = length (snd (hd dtr)) \<and> length tests = length (snd (hd dte))
         \<and> (\<forall>g<length (snd (hd dtr)). \<exists>subs.
                trains ! g = ConcatDataset subs \<and> length subs = length dtr
              \<and> (\<forall>k<length dtr. g < length (snd (dtr ! k))
                    \<and> (\<exists>idx. subs ! k = Subset (ImageFolder (length st + offset dtr k + g)) idx
                          \<and> train_placement disk root_dir ?t type1 (fst (dtr ! k)) g (snd (dtr ! k) ! g)
                              (st' ! (length st + offset dtr k + g)) idx)))
         \<and> (\<forall>g<length (snd (hd dte)). \<exists>subs.
                tests ! g = ConcatDataset subs \<and> length subs = length dte
              \<and> (\<forall>k<length dte. g < length (snd (dte ! k))
                    \<and> (\<exists>idx. subs ! k =
                            Subset (ImageFolder (length st + offset dtr (length dtr) + offset dte k + g)) idx
                          \<and> test_placement disk root_dir type1 (fst (dte ! k)) g (snd (dte ! k) ! g)
                              (st' ! (length st + offset dtr (length dtr) + offset dte k + g)) idx)))"
    using rec ltr lte train_part test_part
    by (intro exI [of _ tests] exI [of _ trains] conjI)
  from ne lte have "snd (hd dte) \<noteq> []" by auto
  with dtr dte store shape show ?thesis by (intro conjI)
qed


section \<open>The assembled record\<close>

lemma items_train_placement:
  assumes "train_placement disk root_dir t type1 classes g placement (st ! a) idx"
  shows "items st (Subset (ImageFolder a) idx)
         = train_placement_items disk root_dir type1 classes g placement"
  using assms
  by (auto simp: train_placement_def train_placement_items_def split: option.splits sum.splits)

lemma items_test_placement:
  assumes "test_placement disk root_dir type1 classes g location (st ! a) idx"
  shows "items st (Subset (ImageFolder a) idx)
         = test_placement_items disk root_dir type1 classes g location"
  using assms
  by (auto simp: test_placement_def test_placement_items_def items_test_keep
           split: option.splits sum.splits)

lemma items_joint:
  assumes "length subs = length d"
    and "\<And>k. k < length d \<Longrightarrow> items st (subs ! k) = F (d ! k)"
  shows "items st (ConcatDataset subs) = concat (map F d)"
proof -
  have "map (items st) subs = map F d"
    using assms by (intro nth_equalityI) simp_all
  then show ?thesis by simp
qed

text \<open>
  Claim C5. A benchmark built from dict-shaped combinations is the list of one test
  dataset followed by the joint training datasets, one per position of the first class
  group's placement list and in that order. The test dataset is a \<open>ConcatDataset\<close>
  of the joint test collections, one per group index; it yields the joint test
  collections of all group indices one after the other, each made of every sample of its
  placements' folders whose label is in the class set of the group, without a cap. The
  training dataset at position \<open>g + 1\<close> yields what the placements at position \<open>g\<close>
  keep, class group by class group.
\<close>

theorem record_shape:
  assumes run: "SpawriousBenchmark_init disk (Dict dtr) (Dict dte) root_dir augment type1 st
                = Inr (record, st')"
  shows "length record = Suc (length (snd (hd dtr)))
       \<and> (\<exists>tests. record ! 0 = ConcatDataset tests \<and> length tests = length (snd (hd dte))
             \<and> (\<forall>g<length tests. items st' (tests ! g) = test_group_items disk root_dir type1 dte g))
       \<and> items st' (record ! 0) = flat_test_items disk root_dir type1 dte
       \<and> (\<forall>g<length (snd (hd dtr)).
             items st' (record ! Suc g) = train_group_items disk root_dir type1 dtr g)"
proof -
  let ?t = "if augment then Augmenting else Plain"
  from init_structure [OF run] obtain tests trains where
    rec: "record = ConcatDataset tests # trains"
    and ltr: "length trains = length (snd (hd dtr))" and lte: "length tests = length (snd (hd dte))"
    and tr: "\<forall>g<length (snd (hd dtr)). \<exists>subs.
                trains ! g = ConcatDataset subs \<and> length subs = length dtr
              \<and> (\<forall>k<length dtr. g < length (snd (dtr ! k))
                    \<and> (\<exists>idx. subs ! k = Subset (ImageFolder (length st + offset dtr k + g)) idx
                          \<and> train_placement disk root_dir ?t type1 (fst (dtr ! k)) g (snd (dtr ! k) ! g)
                              (st' ! (length st + offset dtr k + g)) idx))"
    and te: "\<forall>g<length (snd (hd dte)). \<exists>subs.
                tests ! g = ConcatDataset subs \<and> length subs = length dte
              \<and> (\<forall>k<length dte. g < length (snd (dte ! k))
                    \<and> (\<exists>idx. subs ! k =
                            Subset (ImageFolder (length st + offset dtr (length dtr) + offset dte k + g)) idx
                          \<and> test_placement disk root_dir type1 (fst (dte ! k)) g (snd (dte ! k) ! g)
                              (st' ! (length st + offset dtr (length dtr) + offset dte k + g)) idx))"
    by blast
  have train_items: "items st' (trains ! g) = train_group_items disk root_dir type1 dtr g"
    if g: "g < length (snd (hd dtr))" for g
  proof -
    from tr g obtain subs where subs: "trains ! g = ConcatDataset subs" "length subs = length dtr"
      and each: "\<forall>k<length dtr. \<exists>idx. subs ! k = Subset (ImageFolder (length st + offset dtr k + g)) idx
                    \<and> train_placement disk root_dir ?t type1 (fst (dtr ! k)) g (snd (dtr ! k) ! g)
                        (st' ! (length st + offset dtr k + g)) idx"
      by blast
    have "items st' (subs ! k)
          = train_placement_items disk root_dir type1 (fst (dtr ! k)) g (snd (dtr ! k) ! g)"
      if "k < length dtr" for k
      using each that items_train_placement by fastforce
    from items_joint [where F = "\<lambda>entry. train_placement_items disk root_dir type1 (fst entry) g (snd entry ! g)",
        OF subs(2) this]
    show ?thesis using subs by (simp add: train_group_items_def)
  qed
  have test_items: "items st' (tests ! g) = test_group_items disk root_dir type1 dte g"
    if g: "g < length (snd (hd dte))" for g
  proof -
    from te g obtain subs where subs: "tests ! g = ConcatDataset subs" "length subs = length dte"
      and each: "\<forall>k<length dte. \<exists>idx. subs ! k =
                      Subset (ImageFolder (length st + offset dtr (length dtr) + offset dte k + g)) idx
                    \<and> test_placement disk root_dir type1 (fst (dte ! k)) g (snd (dte ! k) ! g)
                        (st' ! (length st + offset dtr (length dtr) + offset dte k + g)) idx"
      by blast
    have "items st' (subs ! k)
          = test_placement_items disk root_dir type1 (fst (dte ! k)) g (snd (dte ! k) ! g)"
      if "k < length dte" for k
      using each that items_test_placement by fastforce
    from items_joint [where F = "\<lambda>entry. test_placement_items disk root_dir type1 (fst entry) g (snd entry ! g)",
        OF subs(2) this]
    show ?thesis using subs by (simp add: test_group_items_def)
  qed
  have "map (items st') tests = map (test_group_items disk root_dir type1 dte) [0..<length (snd (hd dte))]"
    using lte test_items by (intro nth_equalityI) simp_all
  then have flat: "items st' (record ! 0) = flat_test_items disk root_dir type1 dte"
    by (simp add: rec flat_test_items_def)
  have first: "\<exists>tests. record ! 0 = ConcatDataset tests \<and> length tests = length (snd (hd dte))
             \<and> (\<forall>g<length tests. items st' (tests ! g) = test_group_items disk root_dir type1 dte g)"
    using rec lte test_items by (intro exI [of _ tests]) simp
  have rest: "\<forall>g<length (snd (hd dtr)).
             items st' (record ! Suc g) = train_group_items disk root_dir type1 dtr g"
    using train_items rec by simp
  have "length record = Suc (length (snd (hd dtr)))" using rec ltr by simp
  with first flat rest show ?thesis by (intro conjI)
qed

theorem record_shape_witness:
  "demo_built = Inr (demo_record, demo_store)
   \<and> length demo_record = 3
   \<and> items demo_store (demo_record ! 0) = flat_test_items demo_disk ''./data/spawrious224'' False demo_test
   \<and> map snd (items demo_store (demo_record ! 0)) = [0, 0, 1, 1, 0, 0, 1, 1]
   \<and> items demo_store (demo_record ! 2) =
       train_group_items demo_disk ''./data/spawrious224'' False demo_train 1"
proof -
  have "\<not> isl demo_built" by code_simp
  then have built: "demo_built = Inr (demo_record, demo_store)"
    by (simp add: demo_record_def demo_store_def)
  then have run: "SpawriousBenchmark_init demo_disk (Dict demo_train) (Dict demo_test)
       ''./data/spawrious224'' True False [] = Inr (demo_record, demo_store)"
    by (simp add: demo_built_def)
  have two: "length (snd (hd demo_train)) = 2" by (simp add: demo_train_def)
  have labels: "map snd (flat_test_items demo_disk ''./data/spawrious224'' False demo_test)
                = [0, 0, 1, 1, 0, 0, 1, 1]"
    by code_simp
  note shape = record_shape [OF run]
  from shape two have len: "length demo_record = 3" by simp
  from shape have flat: "items demo_store (demo_record ! 0)
      = flat_test_items demo_disk ''./data/spawrious224'' False demo_test" by blast
  from shape [THEN conjunct2, THEN conjunct2, THEN conjunct2, THEN spec, of 1] two
  have "items demo_store (demo_record ! Suc 1)
      = train_group_items demo_disk ''./data/spawrious224'' False demo_train 1" by simp
  then have second: "items demo_store (demo_record ! 2)
      = train_group_items demo_disk ''./data/spawrious224'' False demo_train 1"
    by (simp add: numeral_2_eq_2)
  from built len flat labels second show ?thesis by simp
qed

lemma concat_singletons: "concat (map (\<lambda>k. [f k]) xs) = map f xs"
  by (induction xs) simp_all

lemma addresses_joint:
  assumes "length subs = n"
    and "\<And>k. k < n \<Longrightarrow> \<exists>idx. subs ! k = Subset (ImageFolder (f k)) idx"
  shows "addresses (ConcatDataset subs) = map f [0..<n]"
proof -
  have "map addresses subs = map (\<lambda>k. [f k]) [0..<n]"
  proof (rule nth_equalityI)
    show "length (map addresses subs) = length (map (\<lambda>k. [f k]) [0..<n])"
      using assms(1) by simp
  next
    fix i assume "i < length (map addresses subs)"
    then have i: "i < n" using assms(1) by simp
    with assms(2) obtain idx where "subs ! i = Subset (ImageFolder (f i)) idx" by blast
    with i assms(1) show "map addresses subs ! i = map (\<lambda>k. [f k]) [0..<n] ! i" by simp
  qed
  then show ?thesis by (simp add: concat_singletons)
qed

text \<open>
  Claim C6, where it fails. The second class group of this mapping has two placements, the
  first one only one. Construction succeeds with a single joint training dataset, made of
  the placements at position 0; the placement at position 1 of the second class group (it
  was opened, as the image folder at address 2) is in no dataset of the record. With the
  class groups in the other order, construction raises \<open>IndexError\<close>.
\<close>

theorem ragged_groups_counterexample:
  "map_sum id fst ragged_built =
     Inr [ConcatDataset
            [ConcatDataset [Subset (ImageFolder 3) [0, 1], Subset (ImageFolder 5) [2, 3]],
             ConcatDataset [Subset (ImageFolder 4) [0, 1], Subset (ImageFolder 6) [2, 3]]],
          ConcatDataset [Subset (ImageFolder 0) [0], Subset (ImageFolder 1) [2]]]
   \<and> snd (ragged_train ! 1) ! 1 = (''dirt'', 1)
   \<and> root (snd (projr ragged_built) ! 2) = ''./data/spawrious224/0/dirt/''
   \<and> ragged_rev_built = Inl IndexError"
  by code_simp


text \<open>
  Claim C6, amended. Whenever construction succeeds, and with \<open>G\<close> the number of
  placements of the first class group: the record has \<open>G\<close> joint training datasets,
  every class group has at least \<open>G\<close> placements, and for every group index \<open>g < G\<close> the
  joint training dataset \<open>g\<close> has exactly one member per class group, the \<open>k\<close>-th being
  the filtered sub-collection of the placement at position \<open>g\<close> of class group \<open>k\<close>
  (the image folder opened for it, with the indices its scan keeps). No placement at
  another position, of any class group, is among its members; so a placement at a
  position from \<open>G\<close> on is in no joint training dataset.
\<close>

theorem group_alignment:
  assumes run: "SpawriousBenchmark_init disk (Dict dtr) (Dict dte) root_dir augment type1 st
                = Inr (record, st')"
  shows "length record = Suc (length (snd (hd dtr)))
       \<and> (\<forall>k<length dtr. length (snd (hd dtr)) \<le> length (snd (dtr ! k)))
       \<and> (\<forall>g<length (snd (hd dtr)).
             (\<exists>subs. record ! Suc g = ConcatDataset subs \<and> length subs = length dtr
                \<and> (\<forall>k<length dtr. \<exists>idx.
                       subs ! k = Subset (ImageFolder (length st + offset dtr k + g)) idx
                     \<and> train_placement disk root_dir (if augment then Augmenting else Plain) type1
                         (fst (dtr ! k)) g (snd (dtr ! k) ! g)
                         (st' ! (length st + offset dtr k + g)) idx))
           \<and> addresses (record ! Suc g) = map (\<lambda>k. length st + offset dtr k + g) [0..<length dtr]
           \<and> (\<forall>k<length dtr. \<forall>g'<length (snd (dtr ! k)).
                  g' \<noteq> g \<longrightarrow> length st + offset dtr k + g' \<notin> set (addresses (record ! Suc g))))"
proof -
  let ?t = "if augment then Augmenting else Plain"
  let ?G = "length (snd (hd dtr))"
  from init_structure [OF run] obtain tests trains where
    rec: "record = ConcatDataset tests # trains"
    and ltr: "length trains = ?G"
    and tr: "\<forall>g<?G. \<exists>subs.
                trains ! g = ConcatDataset subs \<and> length subs = length dtr
              \<and> (\<forall>k<length dtr. g < length (snd (dtr ! k))
                    \<and> (\<exists>idx. subs ! k = Subset (ImageFolder (length st + offset dtr k + g)) idx
                          \<and> train_placement disk root_dir ?t type1 (fst (dtr ! k)) g (snd (dtr ! k) ! g)
                              (st' ! (length st + offset dtr k + g)) idx))"
    and dtr: "dtr \<noteq> []"
    by blast
  have long: "?G \<le> length (snd (dtr ! k))" if k: "k < length dtr" for k
  proof (cases "?G")
    case 0
    then show ?thesis by simp
  next
    case (Suc n)
    with tr k have "n < length (snd (dtr ! k))" by (metis lessI)
    with Suc show ?thesis by simp
  qed
  have group: "(\<exists>subs. record ! Suc g = ConcatDataset subs \<and> length subs = length dtr
                \<and> (\<forall>k<length dtr. \<exists>idx.
                       subs ! k = Subset (ImageFolder (length st + offset dtr k + g)) idx
                     \<and> train_placement disk root_dir ?t type1
                         (fst (dtr ! k)) g (snd (dtr ! k) ! g)
                         (st' ! (length st + offset dtr k + g)) idx))
           \<and> addresses (record ! Suc g) = map (\<lambda>k. length st + offset dtr k + g) [0..<length dtr]
           \<and> (\<forall>k<length dtr. \<forall>g'<length (snd (dtr ! k)).
                  g' \<noteq> g \<longrightarrow> length st + offset dtr k + g' \<notin> set (addresses (record ! Suc g)))"
    if g: "g < ?G" for g
  proof -
    from tr g obtain subs where subs: "trains ! g = ConcatDataset subs" "length subs = length dtr"
      and each: "\<forall>k<length dtr. \<exists>idx. subs ! k = Subset (ImageFolder (length st + offset dtr k + g)) idx
                    \<and> train_placement disk root_dir ?t type1 (fst (dtr ! k)) g (snd (dtr ! k) ! g)
                        (st' ! (length st + offset dtr k + g)) idx"
      by blast
    have r: "record ! Suc g = ConcatDataset subs" using rec subs by simp
    have "\<exists>idx. subs ! k = Subset (ImageFolder (length st + offset dtr k + g)) idx"
      if "k < length dtr" for k
      using each that by blast
    from addresses_joint [where f = "\<lambda>k. length st + offset dtr k + g", OF subs(2) this]
    have adr: "addresses (record ! Suc g) = map (\<lambda>k. length st + offset dtr k + g) [0..<length dtr]"
      using r by simp
    have apart: "length st + offset dtr k + g' \<notin> set (addresses (record ! Suc g))"
      if k: "k < length dtr" and g': "g' < length (snd (dtr ! k))" and ne: "g' \<noteq> g" for k g'
    proof
      assume "length st + offset dtr k + g' \<in> set (addresses (record ! Suc g))"
      with adr obtain k' where k': "k' < length dtr"
        and eq: "offset dtr k + g' = offset dtr k' + g" by auto
      from long [OF k'] g have "g < length (snd (dtr ! k'))" by simp
      from offset_inj [OF k g' k' this eq] ne show False by simp
    qed
    from r subs(2) each adr apart show ?thesis by blast
  qed
  have "length record = Suc ?G" using rec ltr by simp
  with long group show ?thesis by blast
qed

theorem group_alignment_witness:
  "demo_built = Inr (demo_record, demo_store)
   \<and> length demo_record = 3
   \<and> addresses (demo_record ! 1) = [0, 2]
   \<and> addresses (demo_record ! 2) = [1, 3]
   \<and> 1 \<notin> set (addresses (demo_record ! 1))"
proof -
  have "\<not> isl demo_built" by code_simp
  then have built: "demo_built = Inr (demo_record, demo_store)"
    by (simp add: demo_record_def demo_store_def)
  then have run: "SpawriousBenchmark_init demo_disk (Dict demo_train) (Dict demo_test)
       ''./data/spawrious224'' True False [] = Inr (demo_record, demo_store)"
    by (simp add: demo_built_def)
  have two: "length (snd (hd demo_train)) = 2" "length demo_train = 2"
    by (simp_all add: demo_train_def)
  have off: "offset demo_train 0 = 0" "offset demo_train 1 = 2"
    by (simp_all add: demo_train_def offset_def)
  note align = group_alignment [OF run]
  from align two have len: "length demo_record = 3" by simp
  from align [THEN conjunct2, THEN conjunct2, THEN spec, of 0] two
  have a0: "addresses (demo_record ! Suc 0) = map (\<lambda>k. offset demo_train k + 0) [0..<2]"
    by simp
  from align [THEN conjunct2, THEN conjunct2, THEN spec, of 1] two
  have a1: "addresses (demo_record ! Suc 1) = map (\<lambda>k. offset demo_train k + 1) [0..<2]"
    by simp
  have upt2: "[0..<2] = [0, Suc 0]" by (simp add: numeral_2_eq_2)
  from a0 off have r1: "addresses (demo_record ! 1) = [0, 2]" by (simp add: upt2)
  from a1 off have r2: "addresses (demo_record ! 2) = [1, 3]" by (simp add: upt2 numeral_2_eq_2)
  from built len r1 r2 show ?thesis by simp
qed


section \<open>Sample caps\<close>

lemma counts_value: "counts = [3072, 2756]"
  by code_simp

lemma length_concat_le:
  assumes "\<And>x. x \<in> set xs \<Longrightarrow> length (f x) \<le> n"
  shows "length (concat (map f xs)) \<le> length xs * n"
  using assms
proof (induction xs)
  case Nil
  then show ?case by simp
next
  case (Cons x xs)
  then have "length (f x) \<le> n" "length (concat (map f xs)) \<le> length xs * n" by simp_all
  then show ?case by simp
qed

lemma length_train_keep:
  "0 < limit \<Longrightarrow> length (train_keep smp limit classes_idx) \<le> length classes_idx * nat limit"
  unfolding train_keep_def
  by (rule length_concat_le) (rule length_limit_scan)

lemma train_keep_labels:
  "i \<in> set (train_keep smp limit classes_idx) \<Longrightarrow> snd (smp ! i) \<in> set classes_idx \<and> i < length smp"
  by (auto simp: train_keep_def dest: limit_scan_labels)

lemma train_placementD:
  assumes "train_placement disk root_dir t type1 classes g placement data idx"
  shows "\<exists>opened classes_idx.
           disk (placement_path root_dir type1 g (fst placement)) = Some opened
         \<and> data = opened\<lparr>transform := t\<rparr>
         \<and> class_indices (class_to_idx opened) classes = Inr classes_idx
         \<and> idx = train_keep (samples opened) (snd placement) classes_idx"
proof (cases "disk (placement_path root_dir type1 g (fst placement))")
  case None
  with assms show ?thesis by (simp add: train_placement_def)
next
  case (Some opened)
  with assms show ?thesis
    by (cases "class_indices (class_to_idx opened) classes") (simp_all add: train_placement_def)
qed

lemma train_placement_bound:
  assumes "train_placement disk root_dir t type1 classes g placement (st ! a) idx"
    and "0 < snd placement"
  shows "length (items st (Subset (ImageFolder a) idx)) \<le> length classes * nat (snd placement)"
proof -
  from train_placementD [OF assms(1)] obtain opened classes_idx where
    "disk (placement_path root_dir type1 g (fst placement)) = Some opened"
    and "st ! a = opened\<lparr>transform := t\<rparr>"
    and c: "class_indices (class_to_idx opened) classes = Inr classes_idx"
    and i: "idx = train_keep (samples opened) (snd placement) classes_idx"
    by (elim exE conjE)
  from length_train_keep [OF assms(2), of "samples opened" classes_idx] class_indices_length [OF c] i
  show ?thesis by simp
qed

lemma train_placement_labels:
  assumes "train_placement disk root_dir t type1 classes g placement (st ! a) idx"
    and "sample \<in> set (items st (Subset (ImageFolder a) idx))"
  shows "\<exists>c \<in> set classes. map_of (class_to_idx (st ! a)) c = Some (snd sample)"
proof -
  from train_placementD [OF assms(1)] obtain opened classes_idx where
    "disk (placement_path root_dir type1 g (fst placement)) = Some opened"
    and o: "st ! a = opened\<lparr>transform := t\<rparr>"
    and c: "class_indices (class_to_idx opened) classes = Inr classes_idx"
    and i: "idx = train_keep (samples opened) (snd placement) classes_idx"
    by (elim exE conjE)
  from assms(2) o obtain j where "j \<in> set idx" "sample = samples opened ! j" by auto
  with i train_keep_labels have "snd sample \<in> set classes_idx" by blast
  with class_indices_set [OF c] o show ?thesis by auto
qed

text \<open>
  Claim C3, evaluated where it fails. A placement with cap 0 for the class group
  \<open>(bulldog)\<close>: the first sample of the folder is a bulldog (as it is in every image
  folder that has this class, which sorts first), the scan appends its index before it
  compares the count with the limit, and the subset keeps one item, where the first 0
  matching items are none.
\<close>

theorem zero_cap_keeps_first_sample:
  "map_sum id fst (train_subset demo_disk ''./data/spawrious224'' Augmenting False [''bulldog''] 0
       (''beach'', 0) []) = Inr (Subset (ImageFolder 0) [0])
   \<and> train_placement_items demo_disk ''./data/spawrious224'' False [''bulldog''] 0 (''beach'', 0)
       = [(''./data/spawrious224/0/beach/bulldog/a.png'', 0)]
   \<and> spec_capped (samples (the (demo_disk ''./data/spawrious224/0/beach/''))) 0 [0] = []"
  by code_simp

lemma build_type1_train:
  assumes "4 \<le> length grp" "4 \<le> length test"
  shows "build_type1_combination grp test filler = Inr
        \<lparr>train_combinations =
           [([''bulldog''], [(grp ! 0, 3072), (grp ! 0, 2756)]),
            ([''dachshund''], [(grp ! 1, 3072), (grp ! 1, 2756)]),
            ([''labrador''], [(grp ! 2, 3072), (grp ! 2, 2756)]),
            ([''corgi''], [(grp ! 3, 3072), (grp ! 3, 2756)]),
            ([''bulldog'', ''dachshund'', ''labrador'', ''corgi''], [(filler, 96), (filler, 412)])],
         test_combinations =
           [([''bulldog''], [test ! 0, test ! 0]),
            ([''dachshund''], [test ! 1, test ! 1]),
            ([''labrador''], [test ! 2, test ! 2]),
            ([''corgi''], [test ! 3, test ! 3])]\<rparr>"
  using assms by (simp add: build_type1_combination_def counts_value total_def)

lemma placement_cap_bound:
  assumes init: "SpawriousBenchmark_init disk (Dict dtr) (Dict dte) root_dir augment type1 st
                 = Inr (record, st')"
    and g: "g < length (snd (hd dtr))" and k: "k < length dtr"
    and pos: "0 < snd (snd (dtr ! k) ! g)"
  shows "length (items st' (members (record ! Suc g) ! k))
         \<le> length (fst (dtr ! k)) * nat (snd (snd (dtr ! k) ! g))"
proof -
  let ?t = "if augment then Augmenting else Plain"
  from init_structure [OF init] obtain tests trains where
    rec: "record = ConcatDataset tests # trains"
    and tr: "\<forall>g<length (snd (hd dtr)). \<exists>subs.
                trains ! g = ConcatDataset subs \<and> length subs = length dtr
              \<and> (\<forall>k<length dtr. g < length (snd (dtr ! k))
                    \<and> (\<exists>idx. subs ! k = Subset (ImageFolder (length st + offset dtr k + g)) idx
                          \<and> train_placement disk root_dir ?t type1 (fst (dtr ! k)) g (snd (dtr ! k) ! g)
                              (st' ! (length st + offset dtr k + g)) idx))"
    by blast
  from tr g obtain subs where subs: "trains ! g = ConcatDataset subs"
    and each: "\<forall>k<length dtr. \<exists>idx. subs ! k = Subset (ImageFolder (length st + offset dtr k + g)) idx
                        \<and> train_placement disk root_dir ?t type1 (fst (dtr ! k)) g (snd (dtr ! k) ! g)
                            (st' ! (length st + offset dtr k + g)) idx"
    by blast
  from each k obtain idx where
    s: "subs ! k = Subset (ImageFolder (length st + offset dtr k + g)) idx"
    and p: "train_placement disk root_dir ?t type1 (fst (dtr ! k)) g (snd (dtr ! k) ! g)
                            (st' ! (length st + offset dtr k + g)) idx"
    by blast
  from train_placement_bound [OF p pos] s subs rec show ?thesis
    by (simp add: members_def)
qed

lemma type1_bound:
  assumes run: "benchmark (build_type1_combination grp test filler) disk root_dir augment True st
                = Inr (record, st')"
    and k: "k < 4"
  shows "length (items st' (members (record ! 1) ! k)) \<le> 3072
       \<and> length (items st' (members (record ! 2) ! k)) \<le> 2756"
proof -
  define dtr :: "(string list \<times> (string \<times> int) list) list" where "dtr =
           [([''bulldog''], [(grp ! 0, 3072), (grp ! 0, 2756)]),
            ([''dachshund''], [(grp ! 1, 3072), (grp ! 1, 2756)]),
            ([''labrador''], [(grp ! 2, 3072), (grp ! 2, 2756)]),
            ([''corgi''], [(grp ! 3, 3072), (grp ! 3, 2756)]),
            ([''bulldog'', ''dachshund'', ''labrador'', ''corgi''], [(filler, 96), (filler, 412)])]"
  define dte :: "(string list \<times> string list) list" where "dte =
           [([''bulldog''], [test ! 0, test ! 0]),
            ([''dachshund''], [test ! 1, test ! 1]),
            ([''labrador''], [test ! 2, test ! 2]),
            ([''corgi''], [test ! 3, test ! 3])]"
  have long: "4 \<le> length grp \<and> 4 \<le> length test"
  proof (rule ccontr)
    assume "\<not> ?thesis"
    then have "build_type1_combination grp test filler = Inl IndexError"
      by (auto simp: build_type1_combination_def)
    with run show False by (simp add: benchmark_def)
  qed
  then have "build_type1_combination grp test filler
             = Inr \<lparr>train_combinations = dtr, test_combinations = dte\<rparr>"
    unfolding dtr_def dte_def by (intro build_type1_train) simp_all
  with run have init: "SpawriousBenchmark_init disk (Dict dtr) (Dict dte) root_dir augment True st
                = Inr (record, st')"
    by (simp add: benchmark_def)
  have two: "length (snd (hd dtr)) = 2" and five: "length dtr = 5"
    by (simp_all add: dtr_def)
  have "k = 0 \<or> k = 1 \<or> k = 2 \<or> k = 3" using k by arith
  then have cls: "length (fst (dtr ! k)) = 1" and c0: "snd (snd (dtr ! k) ! 0) = 3072"
    and c1: "snd (snd (dtr ! k) ! 1) = 2756"
    by (auto simp: dtr_def)
  from placement_cap_bound [OF init, of 0 k] two five k cls c0
  have "length (items st' (members (record ! Suc 0) ! k)) \<le> 3072" by simp
  moreover from placement_cap_bound [OF init, of 1 k] two five k cls c1
  have "length (items st' (members (record ! Suc 1) ! k)) \<le> 2756" by simp
  ultimately show ?thesis by (simp add: numeral_2_eq_2)
qed

text \<open>
  Claim C2, where it fails. The builder truncates: \<open>int(0.97 * 3168)\<close> is 3072, while
  \<open>round(0.97 \<times> 3168)\<close> is 3073. The second count is 2756 either way.
\<close>

theorem type1_counts_counterexample:
  "counts = [3072, 2756]
   \<and> spec_count 97 = 3073 \<and> spec_count 87 = 2756
   \<and> counts \<noteq> [spec_count 97, spec_count 87]
   \<and> map snd (snd (train_combinations (projr (build_type1_combination
          [''desert'', ''jungle'', ''dirt'', ''snow''] [''dirt'', ''snow'', ''desert'', ''jungle'']
          ''beach'')) ! 0)) = [3072, 2756]"
  by code_simp

text \<open>
  Claim C2, amended. The two sample caps the builder produces for each of the four
  classes are \<open>int(0.97 * 3168) = 3072\<close> and \<open>int(0.87 * 3168) = 2756\<close>, the caps of the
  filler placements are \<open>3168\<close> minus these, 96 and 412, and in every Type-1 variant that
  is built the placement of each of the four class groups holds at most 3072 items in the
  first joint training dataset and at most 2756 in the second, at most 5828 together,
  whatever the disk holds.
\<close>

theorem type1_caps:
  "counts = [3072, 2756]
   \<and> [total - counts ! 0, total - counts ! 1] = [96, 412]
   \<and> (4 \<le> length grp \<and> 4 \<le> length test \<longrightarrow>
        map (\<lambda>entry. (fst entry, map snd (snd entry)))
          (train_combinations (projr (build_type1_combination grp test filler)))
        = [([''bulldog''], [3072, 2756]), ([''dachshund''], [3072, 2756]),
           ([''labrador''], [3072, 2756]), ([''corgi''], [3072, 2756]),
           ([''bulldog'', ''dachshund'', ''labrador'', ''corgi''], [96, 412])])
   \<and> ((V = SpuriousLocationType1_1 \<or> V = SpuriousLocationType1_2 \<or> V = SpuriousLocationType1_3)
        \<and> V disk root_dir augment st = Inr (record, st') \<and> k < 4 \<longrightarrow>
          length (items st' (members (record ! 1) ! k)) \<le> 3072
        \<and> length (items st' (members (record ! 2) ! k)) \<le> 2756
        \<and> length (items st' (members (record ! 1) ! k))
            + length (items st' (members (record ! 2) ! k)) \<le> 3072 + 2756)"
proof -
  have filler: "[total - counts ! 0, total - counts ! 1] = [96, 412]"
    by (simp add: counts_value total_def)
  have caps: "map (\<lambda>entry. (fst entry, map snd (snd entry)))
          (train_combinations (projr (build_type1_combination grp test filler)))
        = [([''bulldog''], [3072, 2756]), ([''dachshund''], [3072, 2756]),
           ([''labrador''], [3072, 2756]), ([''corgi''], [3072, 2756]),
           ([''bulldog'', ''dachshund'', ''labrador'', ''corgi''], [96, 412])]"
    if "4 \<le> length grp \<and> 4 \<le> length test"
    using that by (simp add: build_type1_train)
  have bound: "length (items st' (members (record ! 1) ! k)) \<le> 3072
        \<and> length (items st' (members (record ! 2) ! k)) \<le> 2756
        \<and> length (items st' (members (record ! 1) ! k))
            + length (items st' (members (record ! 2) ! k)) \<le> 3072 + 2756"
    if v: "V = SpuriousLocationType1_1 \<or> V = SpuriousLocationType1_2 \<or> V = SpuriousLocationType1_3"
      and run: "V disk root_dir augment st = Inr (record, st')" and k: "k < 4"
  proof -
    from v run obtain grp test filler where
      "benchmark (build_type1_combination grp test filler) disk root_dir augment True st
       = Inr (record, st')"
      unfolding SpuriousLocationType1_1_def SpuriousLocationType1_2_def SpuriousLocationType1_3_def
      by (elim disjE) auto
    from type1_bound [OF this k] show ?thesis by simp
  qed
  from counts_value filler caps bound show ?thesis by blast
qed

theorem type1_caps_witness:
  "type1_built = Inr (type1_record, type1_store)
   \<and> length (items type1_store (members (type1_record ! 1) ! 0)) \<le> 3072
   \<and> length (items type1_store (members (type1_record ! 2) ! 0)) \<le> 2756
   \<and> map (\<lambda>entry. (fst entry, map snd (snd entry)))
        (train_combinations (projr (build_type1_combination
           [''desert'', ''jungle'', ''dirt'', ''snow''] [''dirt'', ''snow'', ''desert'', ''jungle''] ''beach'')))
      = [([''bulldog''], [3072, 2756]), ([''dachshund''], [3072, 2756]),
         ([''labrador''], [3072, 2756]), ([''corgi''], [3072, 2756]),
         ([''bulldog'', ''dachshund'', ''labrador'', ''corgi''], [96, 412])]"
proof -
  have "\<not> isl type1_built" by code_simp
  then have built: "type1_built = Inr (type1_record, type1_store)"
    by (simp add: type1_record_def type1_store_def)
  then have run: "SpuriousLocationType1_1 demo_disk ''./data/spawrious224'' True []
                  = Inr (type1_record, type1_store)"
    by (simp add: type1_built_def)
  note caps = type1_caps [of "[''desert'', ''jungle'', ''dirt'', ''snow'']"
      "[''dirt'', ''snow'', ''desert'', ''jungle'']" "''beach''" SpuriousLocationType1_1
      demo_disk "''./data/spawrious224''" True "[]" type1_record type1_store 0]
  from caps [THEN conjunct2, THEN conjunct2, THEN conjunct1]
  have c: "map (\<lambda>entry. (fst entry, map snd (snd entry)))
        (train_combinations (projr (build_type1_combination
           [''desert'', ''jungle'', ''dirt'', ''snow''] [''dirt'', ''snow'', ''desert'', ''jungle''] ''beach'')))
      = [([''bulldog''], [3072, 2756]), ([''dachshund''], [3072, 2756]),
         ([''labrador''], [3072, 2756]), ([''corgi''], [3072, 2756]),
         ([''bulldog'', ''dachshund'', ''labrador'', ''corgi''], [96, 412])]"
    by simp
  from caps [THEN conjunct2, THEN conjunct2, THEN conjunct2] run
  have "length (items type1_store (members (type1_record ! 1) ! 0)) \<le> 3072
        \<and> length (items type1_store (members (type1_record ! 2) ! 0)) \<le> 2756"
    by simp
  with built c show ?thesis by simp
qed

end
